theory Spec2Isabelle
  imports Complex_Main
begin

section \<open>Errors and results\<close>

text \<open>
  Every exception the module can raise is a value.  \<open>ValueError\<close> and \<open>TypeError\<close> carry the
  message of the source, since the module tells its failures apart by message only.
  \<open>NonFinite\<close> stands for a numpy array division by the scalar zero: numpy does not raise
  there but fills the array with \<open>inf\<close>/\<open>nan\<close>, values that exact complex arithmetic does not
  have; the model stops instead of continuing with HOL's \<open>x / 0 = 0\<close>.
\<close>

datatype error =
    ValueError string
  | TypeError string
  | IndexError string
  | AssertionError
  | AttributeError string
  | ZeroDivisionError
  | LinAlgError
  | UnboundLocalError string
  | NameError string
  | NonFinite

definition bind :: "error + 'a \<Rightarrow> ('a \<Rightarrow> error + 'b) \<Rightarrow> error + 'b" where
  "bind r f = (case r of Inl e \<Rightarrow> Inl e | Inr v \<Rightarrow> f v)"

fun mapM :: "('a \<Rightarrow> error + 'b) \<Rightarrow> 'a list \<Rightarrow> error + 'b list" where
  "mapM f [] = Inr []"
| "mapM f (x # xs) =
     (case f x of Inl e \<Rightarrow> Inl e
      | Inr y \<Rightarrow> (case mapM f xs of Inl e \<Rightarrow> Inl e | Inr ys \<Rightarrow> Inr (y # ys)))"

section \<open>Parameter matrix types\<close>

text \<open>The source's type tags are the strings \<open>'Z'\<close>, \<open>'Y'\<close>, \<open>'S'\<close>, \<open>'T'\<close>, \<open>'H'\<close>, \<open>'G'\<close>, \<open>'ABCD'\<close>.\<close>

abbreviation TYPE_Z :: string where "TYPE_Z \<equiv> ''Z''"
abbreviation TYPE_Y :: string where "TYPE_Y \<equiv> ''Y''"
abbreviation TYPE_S :: string where "TYPE_S \<equiv> ''S''"
abbreviation TYPE_T :: string where "TYPE_T \<equiv> ''T''"
abbreviation TYPE_H :: string where "TYPE_H \<equiv> ''H''"
abbreviation TYPE_G :: string where "TYPE_G \<equiv> ''G''"
abbreviation TYPE_ABCD :: string where "TYPE_ABCD \<equiv> ''ABCD''"

section \<open>Dense complex arrays\<close>

text \<open>
  A two-dimensional numpy array is a list of rows.  \<open>rectangular\<close> says that the rows have
  one length, which is what \<open>np.asarray(..., dtype=complex)\<close> needs of a nested sequence;
  a square array has as many rows as columns and at least one row (the empty list is the
  one-dimensional empty array).
\<close>

type_synonym cmatrix = "complex list list"

definition rectangular :: "'a list list \<Rightarrow> bool" where
  "rectangular m = list_all (\<lambda>r. length r = length (hd m)) m"

definition is_mat :: "nat \<Rightarrow> nat \<Rightarrow> 'a list list \<Rightarrow> bool" where
  "is_mat r c m = (length m = r \<and> list_all (\<lambda>row. length row = c) m)"

definition identity :: "nat \<Rightarrow> cmatrix" where
  "identity n = map (\<lambda>i. map (\<lambda>j. if i = j then 1 else 0) [0..<n]) [0..<n]"

text \<open>Elementwise arithmetic of numpy on arrays of one shape, and with a scalar.\<close>

definition madd :: "cmatrix \<Rightarrow> cmatrix \<Rightarrow> cmatrix" where
  "madd a b = map2 (map2 (+)) a b"

definition msub :: "cmatrix \<Rightarrow> cmatrix \<Rightarrow> cmatrix" where
  "msub a b = map2 (map2 (-)) a b"

definition smul :: "complex \<Rightarrow> cmatrix \<Rightarrow> cmatrix" where
  "smul c a = map (map (\<lambda>x. c * x)) a"

definition mscale :: "cmatrix \<Rightarrow> complex \<Rightarrow> cmatrix" where
  "mscale a c = map (map (\<lambda>x. x * c)) a"

definition mdiv :: "cmatrix \<Rightarrow> complex \<Rightarrow> error + cmatrix" where
  "mdiv a c = (if c = 0 then Inl NonFinite else Inr (map (map (\<lambda>x. x / c)) a))"

text \<open>\<open>a.T\<close> and the matrix product \<open>np.dot(a, b)\<close> of two-dimensional arrays.\<close>

definition transpose_m :: "cmatrix \<Rightarrow> cmatrix" where
  "transpose_m a = map (\<lambda>j. map (\<lambda>row. row ! j) a) [0..<length (hd a)]"

definition mmul :: "cmatrix \<Rightarrow> cmatrix \<Rightarrow> cmatrix" where
  "mmul a b =
     map (\<lambda>row. map (\<lambda>j. \<Sum>k\<leftarrow>[0..<length b]. row ! k * b ! k ! j) [0..<length (hd b)]) a"

definition np_dot :: "cmatrix \<Rightarrow> cmatrix \<Rightarrow> error + cmatrix" where
  "np_dot a b =
     (if a = [] \<or> b = [] \<or> length (hd a) \<noteq> length b
      then Inl (ValueError ''shapes not aligned'')
      else Inr (mmul a b))"

section \<open>NPortMatrixBase and NPortMatrix\<close>

text \<open>
  The classes subclass \<open>np.ndarray\<close> and add attributes; a record holds the array and the
  attributes, and \<open>NPortBase\<close> extends \<open>NPortMatrixBase\<close> as the class does.
\<close>

record 'a NPortMatrixBase =
  array :: 'a
  type :: string
  z0 :: "real option"

record 'a NPortBase = "'a NPortMatrixBase" +
  freqs :: "real list"

type_synonym NPortMatrix = "cmatrix NPortMatrixBase"
type_synonym NPort = "cmatrix list NPortBase"

definition legal_types :: "string list" where
  "legal_types = [TYPE_Z, TYPE_Y, TYPE_S, TYPE_T, TYPE_H, TYPE_G, TYPE_ABCD]"

definition z0test :: "string \<Rightarrow> real option \<Rightarrow> error + real option" where
  "z0test ty z =
     (if ty \<in> {TYPE_S, TYPE_T} then
        (case z of None \<Rightarrow> Inr (Some 50) | Some v \<Rightarrow> Inr (Some v))
      else (case z of None \<Rightarrow> Inr None
            | Some v \<Rightarrow> Inl (ValueError ''the specified n-port representation does not require a reference impedance'')))"

definition convert_z0test :: "'a NPortMatrixBase \<Rightarrow> string \<Rightarrow> real option \<Rightarrow> error + real option" where
  "convert_z0test self ty z =
     (if ty \<in> {TYPE_S, TYPE_T} then
        (case z of
           None \<Rightarrow> (if type self \<in> {TYPE_S, TYPE_T} then Inr (z0 self) else Inr (Some 50))
         | Some v \<Rightarrow> Inr (Some v))
      else (case z of None \<Rightarrow> Inr None
            | Some v \<Rightarrow> Inl (ValueError ''the specified n-port representation does not require a reference impedance'')))"

definition NPortMatrix_new :: "cmatrix \<Rightarrow> string \<Rightarrow> real option \<Rightarrow> error + NPortMatrix" where
  "NPortMatrix_new matrix ty z =
     (if \<not> rectangular matrix then Inl (ValueError ''setting an array element with a sequence'')
      else if ty \<notin> set legal_types then Inl (ValueError ''illegal matrix type specified'')
      else bind (z0test ty z) (\<lambda>z'.
        if matrix = [] then Inl (ValueError ''the matrix should be two-dimensional'')
        else if length matrix \<noteq> length (hd matrix) then Inl (ValueError ''the matrix should be square'')
        else Inr \<lparr>array = matrix, type = ty, z0 = z'\<rparr>))"

definition ports :: "NPortMatrix \<Rightarrow> nat" where
  "ports self = length (array self)"

text \<open>
  A reference impedance used as a number: \<open>None\<close> in arithmetic is Python's \<open>TypeError\<close>.
\<close>

definition as_number :: "real option \<Rightarrow> error + complex" where
  "as_number z =
     (case z of None \<Rightarrow> Inl (TypeError ''unsupported operand type(s)'')
      | Some v \<Rightarrow> Inr (complex_of_real v))"

text \<open>
  \<open>np.linalg.inv\<close> belongs to the dense matrix library the module consumes, so the
  operations that invert take it as the parameter \<open>invert\<close>; it fails with \<open>LinAlgError\<close> on
  a singular matrix.
\<close>

definition NPortMatrix_renormalize ::
  "(cmatrix \<Rightarrow> error + cmatrix) \<Rightarrow> NPortMatrix \<Rightarrow> real \<Rightarrow> error + NPortMatrix" where
  "NPortMatrix_renormalize invert self zn =
     (if type self \<noteq> TYPE_S then Inl AssertionError
      else if z0 self = Some zn then Inr self
      else
        (case z0 self of
           None \<Rightarrow> Inl (TypeError ''unsupported operand type(s)'')
         | Some zs \<Rightarrow>
             if zn + zs = 0 then Inl ZeroDivisionError
             else
               (let idty = identity (length (array self));
                    r = complex_of_real ((zn - zs) / (zn + zs))
                in bind (invert (msub idty (smul r (array self)))) (\<lambda>x.
                   bind (np_dot (msub (array self) (mscale idty r)) x) (\<lambda>res.
                   NPortMatrix_new res (type self) (Some zn))))))"

definition NPortMatrix_convert ::
  "(cmatrix \<Rightarrow> error + cmatrix) \<Rightarrow> NPortMatrix \<Rightarrow> string \<Rightarrow> real option \<Rightarrow> error + NPortMatrix" where
  "NPortMatrix_convert invert self ty z =
     bind (convert_z0test self ty z) (\<lambda>z'.
       let idty = identity (length (array self)) in
       if ty \<in> {TYPE_ABCD, TYPE_T} then
         Inl (TypeError ''Cannot convert an NPort to this representation. Convert to a TwoNPort first'')
       else if ty \<notin> {TYPE_Z, TYPE_Y, TYPE_S} then
         Inl (TypeError ''Unknown n-port parameter type.'')
       else if type self = TYPE_S then
         (if ty = TYPE_Z then
            bind (invert (msub idty (array self))) (\<lambda>x.
            bind (as_number (z0 self)) (\<lambda>zs.
            NPortMatrix_new (mscale (msub (smul 2 x) idty) zs) ty z'))
          else if ty = TYPE_Y then
            bind (invert (madd idty (array self))) (\<lambda>x.
            bind (as_number (z0 self)) (\<lambda>zs.
            bind (mdiv (msub (smul 2 x) idty) zs) (\<lambda>res.
            NPortMatrix_new res ty z')))
          else
            (if z' = z0 self then NPortMatrix_new (array self) ty z'
             else (case z' of
                     None \<Rightarrow> Inl (TypeError ''unsupported operand type(s)'')
                   | Some zn \<Rightarrow> NPortMatrix_renormalize invert self zn)))
       else if type self = TYPE_Z then
         (if ty = TYPE_S then
            bind (as_number z') (\<lambda>zn.
            bind (mdiv (array self) zn) (\<lambda>q.
            bind (invert (madd idty q)) (\<lambda>x.
            NPortMatrix_new (msub idty (smul 2 x)) ty z')))
          else if ty = TYPE_Y then
            bind (invert (array self)) (\<lambda>x. NPortMatrix_new x ty z')
          else NPortMatrix_new (array self) ty z')
       else if type self = TYPE_Y then
         (if ty = TYPE_S then
            bind (as_number z') (\<lambda>zn.
            bind (invert (madd idty (mscale (array self) zn))) (\<lambda>x.
            NPortMatrix_new (msub (smul 2 x) idty) ty z'))
          else if ty = TYPE_Z then
            bind (invert (array self)) (\<lambda>x. NPortMatrix_new x ty z')
          else NPortMatrix_new (array self) ty z')
       else Inl (UnboundLocalError ''result''))"

text \<open>
  \<open>inverts invert a\<close>: on the square array \<open>a\<close> the primitive returns an array of the same shape
  that is the inverse of \<open>a\<close> on both sides.
\<close>

definition inverts :: "(cmatrix \<Rightarrow> error + cmatrix) \<Rightarrow> cmatrix \<Rightarrow> bool" where
  "inverts invert a =
     (case invert a of
        Inl e \<Rightarrow> False
      | Inr x \<Rightarrow> is_mat (length a) (length a) x
                 \<and> mmul x a = identity (length a) \<and> mmul a x = identity (length a))"

text \<open>
  \<open>twonportmatrix\<close>.  The assertions check the two port lists; the rows and then the columns
  are reordered to \<open>inports + outports\<close>; the four quadrants go to the constructor
  \<open>twonport.TwoNPortMatrix\<close>, which lives in another module and is the parameter
  \<open>TwoNPortMatrix\<close>.  After the assertions every port minus one is an index between \<open>0\<close> and
  \<open>2 n - 1\<close>.
\<close>

definition shuffle :: "cmatrix \<Rightarrow> int list \<Rightarrow> cmatrix" where
  "shuffle a ps =
     (let matrix = transpose_m (map (\<lambda>row. a ! nat row) ps);
          matrix2 = map (\<lambda>column. matrix ! nat column) ps
      in transpose_m matrix2)"

definition quadrants :: "nat \<Rightarrow> cmatrix \<Rightarrow> cmatrix list list" where
  "quadrants n matrix =
     (let x11 = map (take n) (take n matrix);
          x12 = map (\<lambda>r. drop n (take (2 * n) r)) (take n matrix);
          x21 = map (take n) (drop n (take (2 * n) matrix));
          x22 = map (\<lambda>r. drop n (take (2 * n) r)) (drop n (take (2 * n) matrix))
      in [[x11, x12], [x21, x22]])"

definition NPortMatrix_twonportmatrix ::
  "(cmatrix list list \<Rightarrow> string \<Rightarrow> real option \<Rightarrow> error + 'r) \<Rightarrow> NPortMatrix
     \<Rightarrow> int list option \<Rightarrow> int list option \<Rightarrow> error + 'r" where
  "NPortMatrix_twonportmatrix TwoNPortMatrix self inports outports =
     (if ports self mod 2 \<noteq> 0 then
        Inl (TypeError ''this NPortMatrix' number of ports is not a multiple of 2'')
      else
        (let n = ports self div 2 in
         bind
           (if inports = None \<and> outports = None then Inr (array self)
            else
              (case inports of
                 None \<Rightarrow> Inl AssertionError
               | Some ins \<Rightarrow>
                  (case outports of
                     None \<Rightarrow> Inl AssertionError
                   | Some outs \<Rightarrow>
                       if length ins \<noteq> n then Inl AssertionError
                       else if length outs \<noteq> n then Inl AssertionError
                       else
                         (let allports = set ins \<union> set outs in
                          if card allports \<noteq> 2 * n then Inl AssertionError
                          else if Min allports = 1 \<and> Max allports = 2 * int n then
                            Inr (shuffle (array self)
                                   (map (\<lambda>port. port - 1) ins @ map (\<lambda>port. port - 1) outs))
                          else Inl AssertionError))))
           (\<lambda>matrix. TwoNPortMatrix (quadrants n matrix) (type self) (z0 self))))"

text \<open>
  \<open>recombine\<close>.  An entry of \<open>portsets\<close> is an int or a tuple of ints.  A row of the transform
  is a Python list of zeros written by item assignment, where a negative index counts from
  the end and an index outside the list raises \<open>IndexError\<close>; the \<open>except\<close> clause raises it
  again under the module's message.
\<close>

datatype portset = PInt int | PTuple "int list"

definition py_setitem :: "'a list \<Rightarrow> int \<Rightarrow> 'a \<Rightarrow> error + 'a list" where
  "py_setitem xs k v =
     (let n = int (length xs); j = (if k < 0 then n + k else k)
      in if 0 \<le> j \<and> j < n then Inr (xs[nat j := v])
         else Inl (IndexError ''list assignment index out of range''))"

definition except_IndexError :: "error + 'a \<Rightarrow> error + 'a" where
  "except_IndexError r =
     (case r of
        Inl (IndexError msg) \<Rightarrow> Inl (IndexError ''specified port number is higher than number of ports'')
      | _ \<Rightarrow> r)"

definition recombine_row :: "nat \<Rightarrow> portset \<Rightarrow> error + int list" where
  "recombine_row n pset =
     (let row = replicate n 0 in
      except_IndexError
        (case pset of
           PTuple ps \<Rightarrow>
             if length ps \<noteq> 2 then Inl AssertionError
             else bind (py_setitem row (ps ! 0 - 1) 1) (\<lambda>row'. py_setitem row' (ps ! 1 - 1) (- 1))
         | PInt p \<Rightarrow>
             if p = 0 then Inl AssertionError
             else if p > 0 then py_setitem row (p - 1) 1
             else py_setitem row (- p - 1) (- 1)))"

text \<open>\<open>np.matrix(m, dtype=float)\<close>: an empty list of rows becomes the 1\<times>0 matrix.\<close>

definition np_matrix :: "int list list \<Rightarrow> cmatrix" where
  "np_matrix m = (if m = [] then [[]] else map (map complex_of_int) m)"

definition NPortMatrix_recombine :: "NPortMatrix \<Rightarrow> portset list \<Rightarrow> error + NPortMatrix" where
  "NPortMatrix_recombine self portsets =
     (if type self \<noteq> TYPE_Z then Inl AssertionError
      else bind (mapM (recombine_row (ports self)) portsets) (\<lambda>rows.
           let m = np_matrix rows in
           bind (np_dot m (array self)) (\<lambda>mz.
           bind (np_dot mz (transpose_m m)) (\<lambda>result.
           NPortMatrix_new result (type self) (z0 self)))))"

text \<open>
  The transform matrix in the specification's words: a row for a signed index has a single
  \<open>1\<close> or \<open>- 1\<close> in the column of the port; a row for a pair \<open>(p, q)\<close> has \<open>- 1\<close> in column \<open>q\<close> and
  \<open>1\<close> in column \<open>p\<close> (for \<open>p = q\<close> the column holds the value written last, \<open>- 1\<close>).  Columns
  are counted from 1 as the ports are.
\<close>

fun transform_row :: "nat \<Rightarrow> portset \<Rightarrow> complex list" where
  "transform_row n (PInt k) =
     map (\<lambda>j. if int j + 1 = \<bar>k\<bar> then (if 0 < k then 1 else - 1) else 0) [0..<n]"
| "transform_row n (PTuple ps) =
     map (\<lambda>j. if int j + 1 = ps ! 1 then - 1 else if int j + 1 = ps ! 0 then 1 else 0) [0..<n]"

fun valid_portset :: "nat \<Rightarrow> portset \<Rightarrow> bool" where
  "valid_portset n (PInt k) = (k \<noteq> 0 \<and> \<bar>k\<bar> \<le> int n)"
| "valid_portset n (PTuple ps) =
     (length ps = 2 \<and> 1 \<le> ps ! 0 \<and> ps ! 0 \<le> int n \<and> 1 \<le> ps ! 1 \<and> ps ! 1 \<le> int n)"

section \<open>NPortBase and NPort\<close>

text \<open>
  \<open>NPort.__new__\<close> runs \<open>NPortBase.__new__\<close> (equal lengths, a first sample that is
  square), \<open>NPortMatrixBase.__new__\<close> (one array out of all samples, the type, the impedance
  rule) and then looks at \<open>obj[0]\<close>, which builds an \<open>NPortMatrix\<close> of the first sample.
\<close>

definition NPort_new :: "real list \<Rightarrow> cmatrix list \<Rightarrow> string \<Rightarrow> real option \<Rightarrow> error + NPort" where
  "NPort_new fs matrices ty z =
     (if length fs \<noteq> length matrices then
        Inl (ValueError ''the list of frequencies and the list of matrices should have equal lenghts'')
      else if matrices = [] then Inl (IndexError ''index 0 is out of bounds'')
      else if hd matrices = [] then Inl (IndexError ''tuple index out of range'')
      else if length (hd matrices) \<noteq> length (hd (hd matrices)) then
        Inl (ValueError ''the matrices should be square'')
      else if \<not> list_all (is_mat (length (hd matrices)) (length (hd (hd matrices)))) matrices then
        Inl (ValueError ''setting an array element with a sequence'')
      else if ty \<notin> set legal_types then Inl (ValueError ''illegal matrix type specified'')
      else bind (z0test ty z) (\<lambda>z'.
           bind (NPortMatrix_new (hd matrices) ty z') (\<lambda>first.
           Inr \<lparr>array = matrices, type = ty, z0 = z', freqs = fs\<rparr>)))"

definition NPort_convert ::
  "(cmatrix \<Rightarrow> error + cmatrix) \<Rightarrow> NPort \<Rightarrow> string \<Rightarrow> real option \<Rightarrow> error + NPort" where
  "NPort_convert invert self ty z =
     bind (mapM (\<lambda>matrix. bind (NPortMatrix_new matrix (type self) (z0 self)) (\<lambda>nportmatrix.
                             NPortMatrix_convert invert nportmatrix ty z)) (array self))
       (\<lambda>converted. NPort_new (freqs self) (map array converted) ty z)"

text \<open>
  \<open>at\<close>.  \<open>scipy.interpolate.interp1d(self.freqs, self, axis=0)\<close> belongs to the
  interpolation library the module consumes: the parameter \<open>interp1d\<close> gives, for the table of
  frequencies and samples and one query frequency, the interpolated sample or the error of
  a query outside the table.  A sequence of queries is evaluated point by point.  \<open>NPort_at\<close>
  is the branch of \<open>at\<close> for an iterable argument, \<open>NPort_at_single\<close> the branch for a single
  frequency, which returns item \<open>0\<close> of the one-sample sweep through \<open>__getitem__\<close>.
\<close>

type_synonym interpolation = "real list \<Rightarrow> cmatrix list \<Rightarrow> real \<Rightarrow> error + cmatrix"

definition NPort_at :: "interpolation \<Rightarrow> NPort \<Rightarrow> real list \<Rightarrow> error + NPort" where
  "NPort_at interp1d self fs =
     bind (mapM (interp1d (freqs self) (array self)) fs) (\<lambda>interpolated.
       NPort_new fs interpolated (type self) (z0 self))"

definition NPortBase_getitem :: "NPort \<Rightarrow> int \<Rightarrow> error + NPortMatrix" where
  "NPortBase_getitem self arg =
     (let n = int (length (array self)); j = (if arg < 0 then n + arg else arg)
      in if 0 \<le> j \<and> j < n then NPortMatrix_new (array self ! nat j) (type self) (z0 self)
         else Inl (IndexError ''index is out of bounds''))"

definition NPort_at_single :: "interpolation \<Rightarrow> NPort \<Rightarrow> real \<Rightarrow> error + NPortMatrix" where
  "NPort_at_single interp1d self f =
     bind (NPort_at interp1d self [f]) (\<lambda>interpolated_nport. NPortBase_getitem interpolated_nport 0)"

text \<open>
  The arithmetic operators that the metaclass installs.  \<open>make_op\<close> wraps the \<open>ndarray\<close>
  method of the same name: \<open>Add\<close> is \<open>__add__\<close>, \<open>RAdd\<close> is \<open>__radd__\<close>, and so on for \<open>sub\<close>, \<open>mul\<close>
  and \<open>div\<close>.  The other operand is a sweep or a constant.
\<close>

datatype opname = Add | Sub | Mul | Div | RAdd | RSub | RMul | RDiv

fun ufunc :: "opname \<Rightarrow> complex \<Rightarrow> complex \<Rightarrow> complex" where
  "ufunc Add a b = a + b"
| "ufunc Sub a b = a - b"
| "ufunc Mul a b = a * b"
| "ufunc Div a b = a / b"
| "ufunc RAdd a b = b + a"
| "ufunc RSub a b = b - a"
| "ufunc RMul a b = b * a"
| "ufunc RDiv a b = b / a"

definition nonzero3 :: "cmatrix list \<Rightarrow> bool" where
  "nonzero3 a = list_all (list_all (list_all (\<lambda>x. x \<noteq> 0))) a"

text \<open>
  The method on two arrays of samples.  Samples of one port count are combined entry by
  entry; numpy broadcasts a 1-port operand against an n-port one and refuses other
  mismatches.  A zero divisor gives \<open>inf\<close>/\<open>nan\<close> entries, reported as \<open>NonFinite\<close>.
\<close>

definition ndarray_method :: "opname \<Rightarrow> cmatrix list \<Rightarrow> cmatrix list \<Rightarrow> error + cmatrix list" where
  "ndarray_method name a b =
     (let n = length (hd a); m = length (hd b) in
      if name = Div \<and> \<not> nonzero3 b then Inl NonFinite
      else if name = RDiv \<and> \<not> nonzero3 a then Inl NonFinite
      else if n = m then Inr (map2 (map2 (map2 (ufunc name))) a b)
      else if n = 1 then Inr (map2 (\<lambda>x y. map (map (ufunc name (x ! 0 ! 0))) y) a b)
      else if m = 1 then Inr (map2 (\<lambda>x y. map (map (\<lambda>v. ufunc name v (y ! 0 ! 0))) x) a b)
      else Inl (ValueError ''operands could not be broadcast together''))"

definition ndarray_method_const :: "opname \<Rightarrow> cmatrix list \<Rightarrow> complex \<Rightarrow> error + cmatrix list" where
  "ndarray_method_const name a c =
     (if name = Div \<and> c = 0 then Inl NonFinite
      else if name = RDiv \<and> \<not> nonzero3 a then Inl NonFinite
      else Inr (map (map (map (\<lambda>v. ufunc name v c))) a))"

datatype operand = Sweep NPort | Const complex

text \<open>\<open>list.index\<close> and the slice \<open>xs[i:j]\<close> for indices that are not negative.\<close>

fun list_index :: "'a list \<Rightarrow> 'a \<Rightarrow> error + nat" where
  "list_index [] x = Inl (ValueError ''x not in list'')"
| "list_index (y # ys) x =
     (if y = x then Inr 0 else bind (list_index ys x) (\<lambda>i. Inr (Suc i)))"

definition slice :: "'a list \<Rightarrow> nat \<Rightarrow> nat \<Rightarrow> 'a list" where
  "slice xs i j = drop i (take j xs)"

definition first_item :: "'a list \<Rightarrow> error + 'a" where
  "first_item xs = (if xs = [] then Inl (IndexError ''index 0 is out of bounds'') else Inr (hd xs))"

definition last_item :: "'a list \<Rightarrow> error + 'a" where
  "last_item xs = (if xs = [] then Inl (IndexError ''index -1 is out of bounds'') else Inr (last xs))"

definition make_op :: "interpolation \<Rightarrow> opname \<Rightarrow> NPort \<Rightarrow> operand \<Rightarrow> error + NPort" where
  "make_op interp1d name this other =
     (case other of
        Sweep other \<Rightarrow>
          if type other = type this then
            if z0 other \<noteq> z0 this then Inl (ValueError ''operands have different Z0'')
            else
              bind (first_item (freqs this)) (\<lambda>this0.
              bind (first_item (freqs other)) (\<lambda>other0.
              bind (last_item (freqs this)) (\<lambda>this1.
              bind (last_item (freqs other)) (\<lambda>other1.
              let min_freq = max this0 other0;
                  max_freq = min this1 other1;
                  result_freqs = sort (remdups (freqs this @ freqs other))
              in bind (list_index result_freqs min_freq) (\<lambda>i.
                 bind (list_index result_freqs max_freq) (\<lambda>j.
                 let result_freqs = slice result_freqs i (j + 1) in
                 bind (NPort_at interp1d this result_freqs) (\<lambda>this_matrices.
                 bind (NPort_at interp1d other result_freqs) (\<lambda>other_matrices.
                 bind (ndarray_method name (array this_matrices) (array other_matrices))
                   (\<lambda>result_matrices.
                 NPort_new result_freqs result_matrices (type this) (z0 this))))))))))
          else Inl (ValueError ''operands have different types'')
      | Const c \<Rightarrow>
          bind (ndarray_method_const name (array this) c) (\<lambda>result_matrices.
          NPort_new (freqs this) result_matrices (type this) (z0 this)))"

text \<open>
  \<open>add\<close>.  The sample is an \<open>NPortMatrix\<close> or a plain array.  The method reads
  \<open>self.matrices\<close>; no statement of the module assigns an attribute of that name (the
  constructors set \<open>type\<close>, \<open>z0\<close> and \<open>freqs\<close>) and \<open>np.ndarray\<close> has none, so the lookup raises
  \<open>AttributeError\<close>.
\<close>

datatype sample = SNPortMatrix NPortMatrix | SArray cmatrix

definition getattr_matrices :: "NPort \<Rightarrow> error + cmatrix list" where
  "getattr_matrices self = Inl (AttributeError ''matrices'')"

definition searchsorted :: "real list \<Rightarrow> real \<Rightarrow> nat" where
  "searchsorted xs v = length (takeWhile (\<lambda>x. x < v) xs)"

definition np_insert :: "'a list \<Rightarrow> nat \<Rightarrow> 'a \<Rightarrow> 'a list" where
  "np_insert xs i v = take i xs @ [v] @ drop i xs"

definition NPort_add ::
  "(cmatrix \<Rightarrow> error + cmatrix) \<Rightarrow> NPort \<Rightarrow> real \<Rightarrow> sample \<Rightarrow> error + NPort" where
  "NPort_add invert self freq matrix =
     bind (case matrix of
             SNPortMatrix pm \<Rightarrow>
               if \<not> (type pm = type self \<and> z0 pm = z0 self) then
                 bind (NPortMatrix_convert invert pm (type self) (z0 self)) (\<lambda>c. Inr (array c))
               else Inr (array pm)
           | SArray a \<Rightarrow> Inr a) (\<lambda>matrix.
     let index = searchsorted (freqs self) freq;
         fs = np_insert (freqs self) index freq
     in bind (getattr_matrices self) (\<lambda>matrices.
        NPort_new fs (np_insert matrices index matrix) (type self) (z0 self)))"

text \<open>
  \<open>dot\<close> with an \<open>NPort\<close> as first argument (the branches for \<open>TwoNPort\<close> arguments use the
  module \<open>twonport\<close> and are not modelled).  With a second argument that is not an \<open>NPort\<close> the
  function reads \<open>arg1.matrices\<close> and, per sample, the name \<open>other\<close>, which it does not bind.
\<close>

definition merge_freqs :: "real list \<Rightarrow> real list \<Rightarrow> error + real list" where
  "merge_freqs freqs1 freqs2 =
     bind (first_item freqs1) (\<lambda>a0.
     bind (first_item freqs2) (\<lambda>b0.
     bind (last_item freqs1) (\<lambda>a1.
     bind (last_item freqs2) (\<lambda>b1.
     let minf = max a0 b0;
         maxf = min a1 b1;
         result = sort (remdups (freqs1 @ freqs2))
     in bind (list_index result minf) (\<lambda>i.
        bind (list_index result maxf) (\<lambda>j.
        Inr (slice result i j)))))))"

definition dot :: "interpolation \<Rightarrow> NPort \<Rightarrow> operand \<Rightarrow> error + NPort" where
  "dot interp1d arg1 arg2 =
     (case arg2 of
        Sweep arg2 \<Rightarrow>
          bind (merge_freqs (freqs arg1) (freqs arg2)) (\<lambda>result_freqs.
          bind (NPort_at interp1d arg1 result_freqs) (\<lambda>arg1_matrices.
          bind (NPort_at interp1d arg2 result_freqs) (\<lambda>arg2_matrices.
          bind (mapM (\<lambda>(a, b). np_dot a b) (zip (array arg1_matrices) (array arg2_matrices)))
            (\<lambda>result_matrices.
          NPort_new result_freqs result_matrices (type arg1) (z0 arg1)))))
      | Const c \<Rightarrow>
          bind (getattr_matrices arg1) (\<lambda>matrices.
          bind (mapM (\<lambda>matrix. Inl (NameError ''other'')) matrices) (\<lambda>result_matrices.
          NPort_new (freqs arg1) result_matrices (type arg1) (z0 arg1))))"

section \<open>A linear interpolation primitive\<close>

text \<open>
  An instance of the parameter \<open>interp1d\<close>: piecewise linear interpolation over a table with
  increasing frequencies, refused outside the table, with which the operations are run on
  concrete inputs.
\<close>

fun linear_interp :: "real list \<Rightarrow> cmatrix list \<Rightarrow> real \<Rightarrow> error + cmatrix" where
  "linear_interp [] ys q = Inl (ValueError ''A value in x_new is outside the interpolation range'')"
| "linear_interp xs [] q = Inl (ValueError ''A value in x_new is outside the interpolation range'')"
| "linear_interp [x] (y # ys) q =
     (if q = x then Inr y
      else Inl (ValueError ''A value in x_new is outside the interpolation range''))"
| "linear_interp (x # x' # xs) [y] q =
     Inl (ValueError ''x and y arrays must be equal in length along interpolation axis'')"
| "linear_interp (x # x' # xs) (y # y' # ys) q =
     (if q < x then Inl (ValueError ''A value in x_new is outside the interpolation range'')
      else if q \<le> x' then
        Inr (madd y (smul (complex_of_real ((q - x) / (x' - x))) (msub y' y)))
      else linear_interp (x' # xs) (y' # ys) q)"

text \<open>
  The number of ports of a sweep, \<open>self[0].shape[0]\<close>, and what the operations need of the
  interpolation primitive on a sweep: at every frequency between the first and the last
  frequency of the sweep it returns a sample of the sweep's shape.
\<close>

definition NPort_ports :: "NPort \<Rightarrow> nat" where
  "NPort_ports self = length (hd (array self))"

definition interpolates_within :: "interpolation \<Rightarrow> NPort \<Rightarrow> bool" where
  "interpolates_within interp1d self =
     (\<forall>q. hd (freqs self) \<le> q \<and> q \<le> last (freqs self) \<longrightarrow>
          (\<exists>m. interp1d (freqs self) (array self) q = Inr m
               \<and> is_mat (NPort_ports self) (NPort_ports self) m))"

section \<open>An inversion primitive for small arrays\<close>

text \<open>
  An instance of the parameter \<open>invert\<close> on 1\<times>1 and 2\<times>2 arrays (the adjugate over the
  determinant), with which the operations are run on concrete inputs.
\<close>

fun inv_small :: "cmatrix \<Rightarrow> error + cmatrix" where
  "inv_small [[a]] = (if a = 0 then Inl LinAlgError else Inr [[1 / a]])"
| "inv_small [[a, b], [c, d]] =
     (if a * d - b * c = 0 then Inl LinAlgError
      else Inr [[d / (a * d - b * c), - b / (a * d - b * c)],
                [- c / (a * d - b * c), a / (a * d - b * c)]])"
| "inv_small m = Inl LinAlgError"

section \<open>Verification\<close>

subsection \<open>Results, constructors and the tag of a converted sweep\<close>

lemma bind_Inr [simp]: "bind (Inr v) f = f v"
  by (simp add: bind_def)

lemma bind_Inl [simp]: "bind (Inl e) f = Inl e"
  by (simp add: bind_def)

lemma bind_eq_Inr: "bind r f = Inr y \<longleftrightarrow> (\<exists>v. r = Inr v \<and> f v = Inr y)"
  by (cases r) simp_all

lemma mapM_all_Inr:
  "(\<And>x. x \<in> set xs \<Longrightarrow> f x = Inr (g x)) \<Longrightarrow> mapM f xs = Inr (map g xs)"
  by (induction xs) simp_all

lemma mapM_Inr_length: "mapM f xs = Inr ys \<Longrightarrow> length ys = length xs"
  by (induction xs arbitrary: ys) (auto split: sum.splits)

lemma mapM_Inr_nth:
  "mapM f xs = Inr ys \<Longrightarrow> i < length xs \<Longrightarrow> f (xs ! i) = Inr (ys ! i)"
proof (induction xs arbitrary: ys i)
  case Nil
  then show ?case by simp
next
  case (Cons x xs)
  then show ?case by (cases i) (auto split: sum.splits)
qed

lemma is_mat_rectangular: "is_mat r c m \<Longrightarrow> rectangular m"
  by (cases m) (auto simp: is_mat_def rectangular_def list_all_iff)

lemma is_mat_hd: "is_mat r c m \<Longrightarrow> 0 < r \<Longrightarrow> length (hd m) = c"
  by (cases m) (auto simp: is_mat_def)

lemma NPortMatrix_new_square:
  assumes "is_mat n n m" "0 < n" "ty \<in> set legal_types" "z0test ty z = Inr z'"
  shows "NPortMatrix_new m ty z = Inr \<lparr>array = m, type = ty, z0 = z'\<rparr>"
proof -
  have "rectangular m" using assms(1) by (rule is_mat_rectangular)
  moreover have "m \<noteq> []" using assms(1,2) by (auto simp: is_mat_def)
  moreover have "length m = length (hd m)" using assms(1,2) is_mat_hd[OF assms(1,2)] by (simp add: is_mat_def)
  ultimately show ?thesis using assms(3,4) by (simp add: NPortMatrix_new_def)
qed

lemma NPortMatrix_new_Inr:
  assumes "NPortMatrix_new m ty z = Inr p"
  shows "array p = m \<and> type p = ty \<and> Inr (z0 p) = z0test ty z \<and> ty \<in> set legal_types
     \<and> 0 < length m \<and> is_mat (length m) (length m) m"
  using assms unfolding NPortMatrix_new_def
  by (auto simp: bind_eq_Inr rectangular_def is_mat_def split: if_splits)

lemma NPort_new_Inr:
  assumes "NPort_new fs ms ty z = Inr s"
  shows "array s = ms \<and> freqs s = fs \<and> type s = ty \<and> Inr (z0 s) = z0test ty z
     \<and> ms \<noteq> [] \<and> length fs = length ms \<and> ty \<in> set legal_types
     \<and> length (hd ms) > 0 \<and> list_all (is_mat (length (hd ms)) (length (hd ms))) ms"
  using assms unfolding NPort_new_def
  by (auto simp: bind_eq_Inr split: if_splits)

lemma NPort_new_ok:
  assumes "length fs = length ms" "ms \<noteq> []" "0 < n" "list_all (is_mat n n) ms"
    "ty \<in> set legal_types" "z0test ty z = Inr z'"
  shows "NPort_new fs ms ty z = Inr \<lparr>array = ms, type = ty, z0 = z', freqs = fs\<rparr>"
proof -
  have h: "is_mat n n (hd ms)" using assms(2,4) by (cases ms) auto
  have l: "length (hd ms) = n" using h by (simp add: is_mat_def)
  have l2: "length (hd (hd ms)) = n" using is_mat_hd[OF h assms(3)] .
  have z: "z0test ty z' = Inr z'" using assms(6) by (auto simp: z0test_def split: if_splits option.splits)
  have "NPortMatrix_new (hd ms) ty z' = Inr \<lparr>array = hd ms, type = ty, z0 = z'\<rparr>"
    using NPortMatrix_new_square[OF h assms(3,5) z] .
  moreover have "hd ms \<noteq> []" using l assms(3) by auto
  ultimately show ?thesis
    using assms l l2 h by (simp add: NPort_new_def)
qed

lemma z0test_S: "z0test TYPE_S z = Inr (Some (case z of None \<Rightarrow> 50 | Some v \<Rightarrow> v))"
  by (simp add: z0test_def split: option.splits)

lemma S_legal: "TYPE_S \<in> set legal_types"
  by (simp add: legal_types_def)

lemma convert_S_S_same:
  assumes "is_mat n n m" "0 < n"
  shows "NPortMatrix_convert invert \<lparr>array = m, type = TYPE_S, z0 = Some z\<rparr> TYPE_S None
         = Inr \<lparr>array = m, type = TYPE_S, z0 = Some z\<rparr>"
  using NPortMatrix_new_square[OF assms S_legal, of "Some z" "Some z"]
  by (simp add: NPortMatrix_convert_def convert_z0test_def z0test_def)

text \<open>
  Claim C10.  \<open>NPort.convert\<close> hands the caller's \<open>z0\<close> argument to the \<open>NPort\<close> constructor as it
  is, so the tag of the result follows the constructor's rule \<open>z0test\<close> and not the rule
  \<open>convert_z0test\<close> of the per-sample conversion.  For an S-typed sweep whose impedance is not
  50, converting to S with \<open>z0\<close> omitted converts every sample at the sweep's own impedance
  (the sample comes back unchanged, tagged with that impedance), while the sweep returned
  holds the same samples and frequencies under the tag 50.
\<close>

theorem NPort_convert_default_tag:
  assumes new: "NPort_new fs ms TYPE_S zarg = Inr s" and ne: "z0 s \<noteq> Some 50"
  shows "(\<exists>z. z0 s = Some z \<and>
            (\<forall>m\<in>set (array s).
               bind (NPortMatrix_new m (type s) (z0 s)) (\<lambda>p. NPortMatrix_convert invert p TYPE_S None)
               = Inr \<lparr>array = m, type = TYPE_S, z0 = Some z\<rparr>))
       \<and> NPort_convert invert s TYPE_S None = Inr (s\<lparr>z0 := Some 50\<rparr>)
       \<and> (\<forall>ty z s'. NPort_convert invert s ty z = Inr s' \<longrightarrow> Inr (z0 s') = z0test ty z)"
proof -
  from NPort_new_Inr[OF new] have
    a: "array s = ms" and f: "freqs s = fs" and t: "type s = TYPE_S"
    and zz: "Inr (z0 s) = z0test TYPE_S zarg" and ne0: "ms \<noteq> []" and len: "length fs = length ms"
    and pos: "0 < length (hd ms)" and all: "list_all (is_mat (length (hd ms)) (length (hd ms))) ms"
    by simp_all
  define n where "n = length (hd ms)"
  from zz obtain z where z: "z0 s = Some z" by (auto simp: z0test_S)
  have each: "bind (NPortMatrix_new m (type s) (z0 s)) (\<lambda>p. NPortMatrix_convert invert p TYPE_S None)
               = Inr \<lparr>array = m, type = TYPE_S, z0 = Some z\<rparr>" if "m \<in> set ms" for m
  proof -
    have m: "is_mat n n m" using all that by (simp add: list_all_iff n_def)
    have "NPortMatrix_new m TYPE_S (Some z) = Inr \<lparr>array = m, type = TYPE_S, z0 = Some z\<rparr>"
      using NPortMatrix_new_square[OF m _ S_legal, of "Some z" "Some z"] pos
      by (simp add: n_def z0test_def)
    then show ?thesis using convert_S_S_same[OF m, of invert z] pos by (simp add: t z n_def)
  qed
  have mm: "mapM (\<lambda>matrix. bind (NPortMatrix_new matrix (type s) (z0 s))
              (\<lambda>p. NPortMatrix_convert invert p TYPE_S None)) ms
            = Inr (map (\<lambda>m. \<lparr>array = m, type = TYPE_S, z0 = Some z\<rparr>) ms)"
    by (rule mapM_all_Inr) (rule each)
  have "NPort_new fs ms TYPE_S None = Inr \<lparr>array = ms, type = TYPE_S, z0 = Some 50, freqs = fs\<rparr>"
    using NPort_new_ok[OF len ne0 _ _ S_legal, of n None "Some 50"] all pos
    by (simp add: n_def z0test_def)
  then have conv: "NPort_convert invert s TYPE_S None = Inr (s\<lparr>z0 := Some 50\<rparr>)"
    using mm a f t by (simp add: NPort_convert_def comp_def)
  have tag: "Inr (z0 s') = z0test ty zz'" if "NPort_convert invert s ty zz' = Inr s'" for ty zz' s'
    using that NPort_new_Inr unfolding NPort_convert_def bind_eq_Inr by blast
  show ?thesis using z each conv tag a by blast
qed


theorem NPort_convert_default_tag_witness:
  "NPort_new [1, 2] [[[0]], [[1 / 2]]] TYPE_S (Some 75)
     = Inr \<lparr>array = [[[0]], [[1 / 2]]], type = TYPE_S, z0 = Some 75, freqs = [1, 2]\<rparr>
   \<and> NPort_convert inv_small
        \<lparr>array = [[[0]], [[1 / 2]]], type = TYPE_S, z0 = Some 75, freqs = [1, 2]\<rparr> TYPE_S None
     = Inr \<lparr>array = [[[0]], [[1 / 2]]], type = TYPE_S, z0 = Some 50, freqs = [1, 2]\<rparr>"
proof -
  have new: "NPort_new [1, 2] [[[0]], [[1 / 2]]] TYPE_S (Some 75)
     = Inr \<lparr>array = [[[0]], [[1 / 2]]], type = TYPE_S, z0 = Some 75, freqs = [1, 2]\<rparr>"
    by (simp add: NPort_new_def NPortMatrix_new_def is_mat_def rectangular_def legal_types_def
        z0test_def)
  show ?thesis
    using new NPort_convert_default_tag[OF new, of inv_small] by simp
qed

subsection \<open>Shapes and entries of the array operations\<close>

lemma is_mat_nth: "is_mat r c m \<Longrightarrow> i < r \<Longrightarrow> length (m ! i) = c"
  by (simp add: is_mat_def list_all_length)

lemma is_matI: "length m = r \<Longrightarrow> (\<And>i. i < r \<Longrightarrow> length (m ! i) = c) \<Longrightarrow> is_mat r c m"
  by (simp add: is_mat_def list_all_length)

lemma mat_eqI:
  assumes "is_mat r c a" "is_mat r c b"
    and "\<And>i j. i < r \<Longrightarrow> j < c \<Longrightarrow> a ! i ! j = b ! i ! j"
  shows "a = b"
proof (rule nth_equalityI)
  show "length a = length b" using assms(1,2) by (simp add: is_mat_def)
next
  fix i assume "i < length a"
  then have i: "i < r" using assms(1) by (simp add: is_mat_def)
  show "a ! i = b ! i"
    by (rule nth_equalityI) (use i assms is_mat_nth in \<open>auto simp: is_mat_nth\<close>)
qed

lemma is_mat_identity: "is_mat n n (identity n)"
  by (simp add: is_mat_def identity_def list_all_length)

lemma nth_identity: "i < n \<Longrightarrow> j < n \<Longrightarrow> identity n ! i ! j = (if i = j then 1 else 0)"
  by (simp add: identity_def)

lemma is_mat_msub: "is_mat r c a \<Longrightarrow> is_mat r c b \<Longrightarrow> is_mat r c (msub a b)"
  by (simp add: is_mat_def msub_def list_all_length)

lemma nth_msub:
  "is_mat r c a \<Longrightarrow> is_mat r c b \<Longrightarrow> i < r \<Longrightarrow> j < c \<Longrightarrow> msub a b ! i ! j = a ! i ! j - b ! i ! j"
  by (simp add: is_mat_def msub_def list_all_length)

lemma is_mat_madd: "is_mat r c a \<Longrightarrow> is_mat r c b \<Longrightarrow> is_mat r c (madd a b)"
  by (simp add: is_mat_def madd_def list_all_length)

lemma nth_madd:
  "is_mat r c a \<Longrightarrow> is_mat r c b \<Longrightarrow> i < r \<Longrightarrow> j < c \<Longrightarrow> madd a b ! i ! j = a ! i ! j + b ! i ! j"
  by (simp add: is_mat_def madd_def list_all_length)

lemma is_mat_smul: "is_mat r c a \<Longrightarrow> is_mat r c (smul k a)"
  by (simp add: is_mat_def smul_def list_all_length)

lemma nth_smul: "is_mat r c a \<Longrightarrow> i < r \<Longrightarrow> j < c \<Longrightarrow> smul k a ! i ! j = k * a ! i ! j"
  by (simp add: is_mat_def smul_def list_all_length)

lemma is_mat_mscale: "is_mat r c a \<Longrightarrow> is_mat r c (mscale a k)"
  by (simp add: is_mat_def mscale_def list_all_length)

lemma nth_mscale: "is_mat r c a \<Longrightarrow> i < r \<Longrightarrow> j < c \<Longrightarrow> mscale a k ! i ! j = a ! i ! j * k"
  by (simp add: is_mat_def mscale_def list_all_length)

lemma mdiv_Inr:
  "k \<noteq> 0 \<Longrightarrow> mdiv a k = Inr (map (map (\<lambda>x. x / k)) a)"
  by (simp add: mdiv_def)

lemma is_mat_divmap: "is_mat r c a \<Longrightarrow> is_mat r c (map (map (\<lambda>x. x / k)) a)"
  by (simp add: is_mat_def list_all_length)

lemma nth_divmap:
  "is_mat r c a \<Longrightarrow> i < r \<Longrightarrow> j < c \<Longrightarrow> map (map (\<lambda>x. x / k)) a ! i ! j = a ! i ! j / k"
  by (simp add: is_mat_def list_all_length)

lemma is_mat_mmul:
  assumes "is_mat r k a" "is_mat k c b" "0 < k"
  shows "is_mat r c (mmul a b)"
proof -
  have "length (hd b) = c" using assms(2,3) by (cases b) (auto simp: is_mat_def)
  then show ?thesis using assms(1) by (simp add: is_mat_def mmul_def list_all_length)
qed

lemma nth_mmul:
  assumes "is_mat r k a" "is_mat k c b" "0 < k" "i < r" "j < c"
  shows "mmul a b ! i ! j = (\<Sum>l = 0..<k. a ! i ! l * b ! l ! j)"
proof -
  have c: "length (hd b) = c" using assms(2,3) by (cases b) (auto simp: is_mat_def)
  have k: "length b = k" and r: "length a = r" using assms(1,2) by (simp_all add: is_mat_def)
  show ?thesis using assms(4,5)
    by (simp add: mmul_def c k r interv_sum_list_conv_sum_set_nat)
qed

lemma np_dot_Inr:
  assumes "is_mat r k a" "is_mat k c b" "0 < k" "0 < r"
  shows "np_dot a b = Inr (mmul a b)"
proof -
  have "a \<noteq> []" "b \<noteq> []" using assms by (auto simp: is_mat_def)
  moreover have "length (hd a) = length b"
    using assms by (cases a) (auto simp: is_mat_def)
  ultimately show ?thesis by (simp add: np_dot_def)
qed

subsection \<open>Laws of the matrix product\<close>

lemma mmul_identity_left:
  assumes "is_mat n c b" "0 < n"
  shows "mmul (identity n) b = b"
proof (rule mat_eqI[of n c])
  show "is_mat n c (mmul (identity n) b)"
    using is_mat_mmul[OF is_mat_identity assms] .
  show "is_mat n c b" by fact
next
  fix i j assume ij: "i < n" "j < c"
  have "mmul (identity n) b ! i ! j = (\<Sum>l = 0..<n. identity n ! i ! l * b ! l ! j)"
    using nth_mmul[OF is_mat_identity assms ij] .
  also have "\<dots> = (\<Sum>l = 0..<n. if l = i then b ! l ! j else 0)"
    by (rule sum.cong) (use ij in \<open>auto simp: nth_identity\<close>)
  also have "\<dots> = b ! i ! j" using ij by simp
  finally show "mmul (identity n) b ! i ! j = b ! i ! j" .
qed

lemma mmul_identity_right:
  assumes "is_mat r n a" "0 < n"
  shows "mmul a (identity n) = a"
proof (rule mat_eqI[of r n])
  show "is_mat r n (mmul a (identity n))"
    using is_mat_mmul[OF assms(1) is_mat_identity assms(2)] .
  show "is_mat r n a" by fact
next
  fix i j assume ij: "i < r" "j < n"
  have "mmul a (identity n) ! i ! j = (\<Sum>l = 0..<n. a ! i ! l * identity n ! l ! j)"
    using nth_mmul[OF assms(1) is_mat_identity assms(2) ij] .
  also have "\<dots> = (\<Sum>l = 0..<n. if l = j then a ! i ! l else 0)"
    by (rule sum.cong) (use ij in \<open>auto simp: nth_identity\<close>)
  also have "\<dots> = a ! i ! j" using ij by simp
  finally show "mmul a (identity n) ! i ! j = a ! i ! j" .
qed

lemma mmul_assoc:
  assumes a: "is_mat r k a" and b: "is_mat k l b" and c: "is_mat l c m"
    and k: "0 < k" and l: "0 < l"
  shows "mmul (mmul a b) m = mmul a (mmul b m)"
proof (rule mat_eqI[of r c])
  show "is_mat r c (mmul (mmul a b) m)"
    using is_mat_mmul[OF is_mat_mmul[OF a b k] c l] .
  show "is_mat r c (mmul a (mmul b m))"
    using is_mat_mmul[OF a is_mat_mmul[OF b c l] k] .
next
  fix i j assume ij: "i < r" "j < c"
  have "mmul (mmul a b) m ! i ! j = (\<Sum>q = 0..<l. mmul a b ! i ! q * m ! q ! j)"
    using nth_mmul[OF is_mat_mmul[OF a b k] c l ij] .
  also have "\<dots> = (\<Sum>q = 0..<l. (\<Sum>p = 0..<k. a ! i ! p * b ! p ! q) * m ! q ! j)"
    by (rule sum.cong) (use nth_mmul[OF a b k ij(1)] in auto)
  also have "\<dots> = (\<Sum>q = 0..<l. \<Sum>p = 0..<k. a ! i ! p * (b ! p ! q * m ! q ! j))"
    by (simp add: sum_distrib_right mult.assoc)
  also have "\<dots> = (\<Sum>p = 0..<k. \<Sum>q = 0..<l. a ! i ! p * (b ! p ! q * m ! q ! j))"
    by (rule sum.swap)
  also have "\<dots> = (\<Sum>p = 0..<k. a ! i ! p * (\<Sum>q = 0..<l. b ! p ! q * m ! q ! j))"
    by (simp add: sum_distrib_left)
  also have "\<dots> = (\<Sum>p = 0..<k. a ! i ! p * mmul b m ! p ! j)"
    by (rule sum.cong) (use nth_mmul[OF b c l _ ij(2)] in auto)
  also have "\<dots> = mmul a (mmul b m) ! i ! j"
    using nth_mmul[OF a is_mat_mmul[OF b c l] k ij] by simp
  finally show "mmul (mmul a b) m ! i ! j = mmul a (mmul b m) ! i ! j" .
qed

lemma mmul_smul_halve:
  assumes x: "is_mat r k x" and a: "is_mat k c a" and k: "0 < k"
  shows "mmul (smul 2 x) (map (map (\<lambda>v. v / 2)) a) = mmul x a"
proof (rule mat_eqI[of r c])
  show "is_mat r c (mmul (smul 2 x) (map (map (\<lambda>v. v / 2)) a))"
    using is_mat_mmul[OF is_mat_smul[OF x] is_mat_divmap[OF a] k] .
  show "is_mat r c (mmul x a)" using is_mat_mmul[OF x a k] .
next
  fix i j assume ij: "i < r" "j < c"
  have "mmul (smul 2 x) (map (map (\<lambda>v. v / 2)) a) ! i ! j
        = (\<Sum>l = 0..<k. smul 2 x ! i ! l * map (map (\<lambda>v. v / 2)) a ! l ! j)"
    using nth_mmul[OF is_mat_smul[OF x] is_mat_divmap[OF a] k ij] .
  also have "\<dots> = (\<Sum>l = 0..<k. x ! i ! l * a ! l ! j)"
    by (rule sum.cong) (use ij nth_smul[OF x] nth_divmap[OF a] in auto)
  also have "\<dots> = mmul x a ! i ! j" using nth_mmul[OF x a k ij] by simp
  finally show "mmul (smul 2 x) (map (map (\<lambda>v. v / 2)) a) ! i ! j = mmul x a ! i ! j" .
qed

text \<open>A left inverse of \<open>2 x\<close> is half of any matrix that \<open>x\<close> inverts from the left.\<close>

lemma left_inverse_of_double:
  assumes x: "is_mat n n x" and a: "is_mat n n a" and y: "is_mat n n y" and n: "0 < n"
    and xa: "mmul x a = identity n" and yx: "mmul y (smul 2 x) = identity n"
  shows "y = map (map (\<lambda>v. v / 2)) a"
proof -
  let ?h = "map (map (\<lambda>v. v / 2)) a"
  have h: "is_mat n n ?h" using is_mat_divmap[OF a] .
  have "y = mmul y (identity n)" using mmul_identity_right[OF y n] by simp
  also have "\<dots> = mmul y (mmul (smul 2 x) ?h)"
    using mmul_smul_halve[OF x a n] xa by simp
  also have "\<dots> = mmul (mmul y (smul 2 x)) ?h"
    using mmul_assoc[OF y is_mat_smul[OF x] h n n] by simp
  also have "\<dots> = ?h" using yx mmul_identity_left[OF h n] by simp
  finally show ?thesis .
qed

subsection \<open>Round trips through the scattering representation\<close>

lemma invertsE:
  assumes "inverts invert a" "length a = n"
  obtains x where "invert a = Inr x" "is_mat n n x" "mmul x a = identity n" "mmul a x = identity n"
  using assms by (auto simp: inverts_def split: sum.splits)

lemma Z_legal: "TYPE_Z \<in> set legal_types" and Y_legal: "TYPE_Y \<in> set legal_types"
  by (simp_all add: legal_types_def)

lemma msub_identity_cancel:
  assumes x: "is_mat n n x"
  shows "msub (identity n) (msub (identity n) (smul 2 x)) = smul 2 x"
proof (rule mat_eqI[of n n])
  show "is_mat n n (msub (identity n) (msub (identity n) (smul 2 x)))"
    by (intro is_mat_msub is_mat_identity is_mat_smul x)
  show "is_mat n n (smul 2 x)" by (intro is_mat_smul x)
next
  fix i j assume ij: "i < n" "j < n"
  have "msub (identity n) (msub (identity n) (smul 2 x)) ! i ! j
        = identity n ! i ! j - (identity n ! i ! j - smul 2 x ! i ! j)"
    using ij by (simp add: nth_msub[OF is_mat_identity is_mat_msub[OF is_mat_identity is_mat_smul[OF x]]]
        nth_msub[OF is_mat_identity is_mat_smul[OF x]])
  then show "msub (identity n) (msub (identity n) (smul 2 x)) ! i ! j = smul 2 x ! i ! j"
    by simp
qed

lemma madd_identity_cancel:
  assumes x: "is_mat n n x"
  shows "madd (identity n) (msub (smul 2 x) (identity n)) = smul 2 x"
proof (rule mat_eqI[of n n])
  show "is_mat n n (madd (identity n) (msub (smul 2 x) (identity n)))"
    by (intro is_mat_madd is_mat_msub is_mat_identity is_mat_smul x)
  show "is_mat n n (smul 2 x)" by (intro is_mat_smul x)
next
  fix i j assume ij: "i < n" "j < n"
  have "madd (identity n) (msub (smul 2 x) (identity n)) ! i ! j
        = identity n ! i ! j + (smul 2 x ! i ! j - identity n ! i ! j)"
    using ij by (simp add: nth_madd[OF is_mat_identity is_mat_msub[OF is_mat_smul[OF x] is_mat_identity]]
        nth_msub[OF is_mat_smul[OF x] is_mat_identity])
  then show "madd (identity n) (msub (smul 2 x) (identity n)) ! i ! j = smul 2 x ! i ! j"
    by simp
qed

lemma back_to_Z:
  assumes M: "is_mat n n M" and z: "z \<noteq> 0"
  shows "mscale (msub (smul 2 (map (map (\<lambda>v. v / 2))
            (madd (identity n) (map (map (\<lambda>x. x / z)) M)))) (identity n)) z = M"
    (is "mscale (msub (smul 2 ?h) (identity n)) z = M")
proof (rule mat_eqI[of n n])
  let ?q = "map (map (\<lambda>x. x / z)) M"
  let ?a = "madd (identity n) ?q"
  have q: "is_mat n n ?q" by (rule is_mat_divmap[OF M])
  have a: "is_mat n n ?a" by (rule is_mat_madd[OF is_mat_identity q])
  have h: "is_mat n n ?h" by (rule is_mat_divmap[OF a])
  have d: "is_mat n n (msub (smul 2 ?h) (identity n))"
    by (rule is_mat_msub[OF is_mat_smul[OF h] is_mat_identity])
  show "is_mat n n (mscale (msub (smul 2 ?h) (identity n)) z)" by (rule is_mat_mscale[OF d])
  show "is_mat n n M" by fact
  fix i j assume ij: "i < n" "j < n"
  have "mscale (msub (smul 2 ?h) (identity n)) z ! i ! j
        = (2 * ((identity n ! i ! j + M ! i ! j / z) / 2) - identity n ! i ! j) * z"
    using ij by (simp add: nth_mscale[OF d] nth_msub[OF is_mat_smul[OF h] is_mat_identity]
        nth_smul[OF h] nth_divmap[OF a] nth_madd[OF is_mat_identity q] nth_divmap[OF M])
  also have "\<dots> = M ! i ! j" using z by (simp add: field_simps)
  finally show "mscale (msub (smul 2 ?h) (identity n)) z ! i ! j = M ! i ! j" .
qed

lemma back_to_Y:
  assumes M: "is_mat n n M" and z: "z \<noteq> 0"
  shows "map (map (\<lambda>x. x / z)) (msub (smul 2 (map (map (\<lambda>v. v / 2))
            (madd (identity n) (mscale M z)))) (identity n)) = M"
    (is "map (map (\<lambda>x. x / z)) (msub (smul 2 ?h) (identity n)) = M")
proof (rule mat_eqI[of n n])
  let ?q = "mscale M z"
  let ?a = "madd (identity n) ?q"
  have q: "is_mat n n ?q" by (rule is_mat_mscale[OF M])
  have a: "is_mat n n ?a" by (rule is_mat_madd[OF is_mat_identity q])
  have h: "is_mat n n ?h" by (rule is_mat_divmap[OF a])
  have d: "is_mat n n (msub (smul 2 ?h) (identity n))"
    by (rule is_mat_msub[OF is_mat_smul[OF h] is_mat_identity])
  show "is_mat n n (map (map (\<lambda>x. x / z)) (msub (smul 2 ?h) (identity n)))"
    by (rule is_mat_divmap[OF d])
  show "is_mat n n M" by fact
  fix i j assume ij: "i < n" "j < n"
  have "map (map (\<lambda>x. x / z)) (msub (smul 2 ?h) (identity n)) ! i ! j
        = (2 * ((identity n ! i ! j + M ! i ! j * z) / 2) - identity n ! i ! j) / z"
    using ij by (simp add: nth_divmap[OF d] nth_msub[OF is_mat_smul[OF h] is_mat_identity]
        nth_smul[OF h] nth_divmap[OF a] nth_madd[OF is_mat_identity q] nth_mscale[OF M])
  also have "\<dots> = M ! i ! j" using z by (simp add: field_simps)
  finally show "map (map (\<lambda>x. x / z)) (msub (smul 2 ?h) (identity n)) ! i ! j = M ! i ! j" .
qed

lemma convert_round_trip_Z:
  assumes new: "NPortMatrix_new M TYPE_Z None = Inr m"
    and zr: "zr = (case zarg of None \<Rightarrow> 50 | Some v \<Rightarrow> v)" and nz: "zr \<noteq> 0"
    and inv1: "inverts invert (madd (identity (length M)) (map (map (\<lambda>x. x / complex_of_real zr)) M))"
    and inv2: "\<forall>s. NPortMatrix_convert invert m TYPE_S zarg = Inr s
                 \<longrightarrow> inverts invert (msub (identity (length M)) (array s))"
  shows "\<exists>s. NPortMatrix_convert invert m TYPE_S zarg = Inr s \<and> type s = TYPE_S \<and> z0 s = Some zr
            \<and> NPortMatrix_convert invert s TYPE_Z None = Inr m"
proof -
  define n where "n = length M"
  let ?z = "complex_of_real zr"
  let ?q = "map (map (\<lambda>x. x / ?z)) M"
  let ?a = "madd (identity n) ?q"
  from NPortMatrix_new_Inr[OF new] have m: "array m = M" "type m = TYPE_Z" "z0 m = None"
    and n: "0 < n" and M: "is_mat n n M"
    by (simp_all add: n_def z0test_def)
  have m_eq: "m = \<lparr>array = M, type = TYPE_Z, z0 = None\<rparr>" using m by simp
  have q: "is_mat n n ?q" by (rule is_mat_divmap[OF M])
  have a: "is_mat n n ?a" by (rule is_mat_madd[OF is_mat_identity q])
  have la: "length ?a = n" using a by (simp add: is_mat_def)
  from inv1 obtain x where x: "invert ?a = Inr x" "is_mat n n x" "mmul x ?a = identity n"
    using invertsE[OF _ la] unfolding n_def by blast
  let ?s = "msub (identity n) (smul 2 x)"
  have s: "is_mat n n ?s" by (intro is_mat_msub is_mat_identity is_mat_smul x)
  have cz: "convert_z0test m TYPE_S zarg = Inr (Some zr)"
    by (simp add: convert_z0test_def m zr split: option.splits)
  have news: "NPortMatrix_new ?s TYPE_S (Some zr) = Inr \<lparr>array = ?s, type = TYPE_S, z0 = Some zr\<rparr>"
    by (rule NPortMatrix_new_square[OF s n S_legal]) (simp add: z0test_def)
  have fwd: "NPortMatrix_convert invert m TYPE_S zarg = Inr \<lparr>array = ?s, type = TYPE_S, z0 = Some zr\<rparr>"
    using nz x(1) news
    by (simp add: NPortMatrix_convert_def cz m as_number_def mdiv_def n_def[symmetric])
  let ?S = "\<lparr>array = ?s, type = TYPE_S, z0 = Some zr\<rparr> :: NPortMatrix"
  have ls: "length ?s = n" using s by (simp add: is_mat_def)
  have "inverts invert (msub (identity n) ?s)" using inv2 fwd by (simp add: n_def)
  then have "inverts invert (smul 2 x)" by (simp add: msub_identity_cancel[OF x(2)])
  moreover have "length (smul 2 x) = n" using x(2) by (simp add: smul_def is_mat_def)
  ultimately obtain y where y: "invert (smul 2 x) = Inr y" "is_mat n n y"
      "mmul y (smul 2 x) = identity n"
    using invertsE by blast
  have yh: "y = map (map (\<lambda>v. v / 2)) ?a"
    by (rule left_inverse_of_double[OF x(2) a y(2) n x(3) y(3)])
  have ret: "mscale (msub (smul 2 y) (identity n)) ?z = M"
    unfolding yh by (rule back_to_Z[OF M]) (use nz in simp)
  have "NPortMatrix_convert invert ?S TYPE_Z None = Inr m"
    using y(1) ret new
    by (simp add: NPortMatrix_convert_def convert_z0test_def ls msub_identity_cancel[OF x(2)]
        as_number_def)
  then show ?thesis using fwd by simp
qed

lemma convert_round_trip_Y:
  assumes new: "NPortMatrix_new M TYPE_Y None = Inr m"
    and zr: "zr = (case zarg of None \<Rightarrow> 50 | Some v \<Rightarrow> v)" and nz: "zr \<noteq> 0"
    and inv1: "inverts invert (madd (identity (length M)) (mscale M (complex_of_real zr)))"
    and inv2: "\<forall>s. NPortMatrix_convert invert m TYPE_S zarg = Inr s
                 \<longrightarrow> inverts invert (madd (identity (length M)) (array s))"
  shows "\<exists>s. NPortMatrix_convert invert m TYPE_S zarg = Inr s \<and> type s = TYPE_S \<and> z0 s = Some zr
            \<and> NPortMatrix_convert invert s TYPE_Y None = Inr m"
proof -
  define n where "n = length M"
  let ?z = "complex_of_real zr"
  let ?q = "mscale M ?z"
  let ?a = "madd (identity n) ?q"
  from NPortMatrix_new_Inr[OF new] have m: "array m = M" "type m = TYPE_Y" "z0 m = None"
    and n: "0 < n" and M: "is_mat n n M"
    by (simp_all add: n_def z0test_def)
  have q: "is_mat n n ?q" by (rule is_mat_mscale[OF M])
  have a: "is_mat n n ?a" by (rule is_mat_madd[OF is_mat_identity q])
  have la: "length ?a = n" using a by (simp add: is_mat_def)
  from inv1 obtain x where x: "invert ?a = Inr x" "is_mat n n x" "mmul x ?a = identity n"
    using invertsE[OF _ la] unfolding n_def by blast
  let ?s = "msub (smul 2 x) (identity n)"
  have s: "is_mat n n ?s" by (intro is_mat_msub is_mat_identity is_mat_smul x)
  have cz: "convert_z0test m TYPE_S zarg = Inr (Some zr)"
    by (simp add: convert_z0test_def m zr split: option.splits)
  have news: "NPortMatrix_new ?s TYPE_S (Some zr) = Inr \<lparr>array = ?s, type = TYPE_S, z0 = Some zr\<rparr>"
    by (rule NPortMatrix_new_square[OF s n S_legal]) (simp add: z0test_def)
  have fwd: "NPortMatrix_convert invert m TYPE_S zarg = Inr \<lparr>array = ?s, type = TYPE_S, z0 = Some zr\<rparr>"
    using nz x(1) news
    by (simp add: NPortMatrix_convert_def cz m as_number_def n_def[symmetric])
  let ?S = "\<lparr>array = ?s, type = TYPE_S, z0 = Some zr\<rparr> :: NPortMatrix"
  have ls: "length ?s = n" using s by (simp add: is_mat_def)
  have "inverts invert (madd (identity n) ?s)" using inv2 fwd by (simp add: n_def)
  then have "inverts invert (smul 2 x)" by (simp add: madd_identity_cancel[OF x(2)])
  moreover have "length (smul 2 x) = n" using x(2) by (simp add: smul_def is_mat_def)
  ultimately obtain y where y: "invert (smul 2 x) = Inr y" "is_mat n n y"
      "mmul y (smul 2 x) = identity n"
    using invertsE by blast
  have yh: "y = map (map (\<lambda>v. v / 2)) ?a"
    by (rule left_inverse_of_double[OF x(2) a y(2) n x(3) y(3)])
  have ret: "map (map (\<lambda>x. x / ?z)) (msub (smul 2 y) (identity n)) = M"
    unfolding yh by (rule back_to_Y[OF M]) (use nz in simp)
  have "NPortMatrix_convert invert ?S TYPE_Y None = Inr m"
    using y(1) ret new nz
    by (simp add: NPortMatrix_convert_def convert_z0test_def ls madd_identity_cancel[OF x(2)]
        as_number_def mdiv_def)
  then show ?thesis using fwd by simp
qed


text \<open>
  Claim C1.  For a square complex matrix \<open>M\<close> accepted by the constructor as a Z-typed
  \<open>NPortMatrix\<close> \<open>m\<close>, and a reference impedance (the argument \<open>zarg\<close>, 50 when it is omitted)
  that is not zero: if the inversion primitive inverts the two intermediate matrices
  \<open>I + M / z0\<close> and \<open>I - S\<close>, then converting \<open>m\<close> to S at that impedance returns a matrix \<open>s\<close>,
  and converting \<open>s\<close> back to Z returns \<open>m\<close> itself.  The same holds for a Y-typed matrix, with
  the intermediate matrices \<open>I + M z0\<close> and \<open>I + S\<close>.
\<close>

theorem convert_round_trip:
  assumes zr: "zr = (case zarg of None \<Rightarrow> 50 | Some v \<Rightarrow> v)" and nz: "zr \<noteq> 0"
  shows "(NPortMatrix_new M TYPE_Z None = Inr m
          \<longrightarrow> inverts invert (madd (identity (length M)) (map (map (\<lambda>x. x / complex_of_real zr)) M))
          \<longrightarrow> (\<forall>s. NPortMatrix_convert invert m TYPE_S zarg = Inr s
                 \<longrightarrow> inverts invert (msub (identity (length M)) (array s)))
          \<longrightarrow> (\<exists>s. NPortMatrix_convert invert m TYPE_S zarg = Inr s \<and> type s = TYPE_S
                 \<and> z0 s = Some zr \<and> NPortMatrix_convert invert s TYPE_Z None = Inr m))
       \<and> (NPortMatrix_new M TYPE_Y None = Inr m
          \<longrightarrow> inverts invert (madd (identity (length M)) (mscale M (complex_of_real zr)))
          \<longrightarrow> (\<forall>s. NPortMatrix_convert invert m TYPE_S zarg = Inr s
                 \<longrightarrow> inverts invert (madd (identity (length M)) (array s)))
          \<longrightarrow> (\<exists>s. NPortMatrix_convert invert m TYPE_S zarg = Inr s \<and> type s = TYPE_S
                 \<and> z0 s = Some zr \<and> NPortMatrix_convert invert s TYPE_Y None = Inr m))"
  using convert_round_trip_Z[OF _ zr nz] convert_round_trip_Y[OF _ zr nz] by blast

lemmas eval_defs =
  NPortMatrix_new_def NPortMatrix_convert_def convert_z0test_def z0test_def legal_types_def
  rectangular_def is_mat_def inverts_def as_number_def mdiv_def identity_def madd_def msub_def
  smul_def mscale_def mmul_def numeral_2_eq_2

theorem convert_round_trip_witness:
  "NPortMatrix_new [[100, 50], [50, 100]] TYPE_Z None
     = Inr \<lparr>array = [[100, 50], [50, 100]], type = TYPE_Z, z0 = None\<rparr>
   \<and> (\<exists>s. NPortMatrix_convert inv_small \<lparr>array = [[100, 50], [50, 100]], type = TYPE_Z, z0 = None\<rparr>
              TYPE_S None = Inr s
          \<and> type s = TYPE_S \<and> z0 s = Some 50
          \<and> NPortMatrix_convert inv_small s TYPE_Z None
              = Inr \<lparr>array = [[100, 50], [50, 100]], type = TYPE_Z, z0 = None\<rparr>)
   \<and> NPortMatrix_new [[1 / 100, 0], [0, 1 / 50]] TYPE_Y None
     = Inr \<lparr>array = [[1 / 100, 0], [0, 1 / 50]], type = TYPE_Y, z0 = None\<rparr>
   \<and> (\<exists>s. NPortMatrix_convert inv_small \<lparr>array = [[1 / 100, 0], [0, 1 / 50]], type = TYPE_Y, z0 = None\<rparr>
              TYPE_S (Some 50) = Inr s
          \<and> type s = TYPE_S \<and> z0 s = Some 50
          \<and> NPortMatrix_convert inv_small s TYPE_Y None
              = Inr \<lparr>array = [[1 / 100, 0], [0, 1 / 50]], type = TYPE_Y, z0 = None\<rparr>)"
proof -
  let ?Z = "[[100, 50], [50, 100]] :: cmatrix"
  let ?Y = "[[1 / 100, 0], [0, 1 / 50]] :: cmatrix"
  have nz: "NPortMatrix_new ?Z TYPE_Z None = Inr \<lparr>array = ?Z, type = TYPE_Z, z0 = None\<rparr>"
    by (simp add: eval_defs)
  have ny: "NPortMatrix_new ?Y TYPE_Y None = Inr \<lparr>array = ?Y, type = TYPE_Y, z0 = None\<rparr>"
    by (simp add: eval_defs)
  have z1: "inverts inv_small (madd (identity (length ?Z)) (map (map (\<lambda>x. x / complex_of_real 50)) ?Z))"
    by (simp add: eval_defs)
  have z2: "\<forall>s. NPortMatrix_convert inv_small \<lparr>array = ?Z, type = TYPE_Z, z0 = None\<rparr> TYPE_S None = Inr s
            \<longrightarrow> inverts inv_small (msub (identity (length ?Z)) (array s))"
    by (simp add: eval_defs)
  have y1: "inverts inv_small (madd (identity (length ?Y)) (mscale ?Y (complex_of_real 50)))"
    by (simp add: eval_defs)
  have y2: "\<forall>s. NPortMatrix_convert inv_small \<lparr>array = ?Y, type = TYPE_Y, z0 = None\<rparr> TYPE_S (Some 50) = Inr s
            \<longrightarrow> inverts inv_small (madd (identity (length ?Y)) (array s))"
    by (simp add: eval_defs)
  have a: "(50::real) = (case (None :: real option) of None \<Rightarrow> 50 | Some v \<Rightarrow> v)" by simp
  have b: "(50::real) = (case Some 50 of None \<Rightarrow> 50 | Some v \<Rightarrow> v)" by simp
  have c: "(50::real) \<noteq> 0" by simp
  from convert_round_trip[OF a c, of ?Z _ inv_small] nz z1 z2
    convert_round_trip[OF b c, of ?Y _ inv_small] ny y1 y2
  show ?thesis by blast
qed

subsection \<open>Renormalization\<close>

lemma renormalize_same:
  "type m = TYPE_S \<Longrightarrow> z0 m = Some z \<Longrightarrow> NPortMatrix_renormalize invert m z = Inr m"
  by (simp add: NPortMatrix_renormalize_def)

lemma renormalize_Inr_tag:
  assumes "NPortMatrix_renormalize invert m zn = Inr m'"
  shows "type m' = TYPE_S \<and> z0 m' = Some zn"
  using assms NPortMatrix_new_Inr[of _ TYPE_S "Some zn" m']
  unfolding NPortMatrix_renormalize_def
  by (auto simp: Let_def bind_eq_Inr z0test_def split: if_splits option.splits)

lemma renormalize_formula:
  assumes "NPortMatrix_renormalize invert m zn = Inr m'" "z0 m = Some z" "zn \<noteq> z"
  shows "\<exists>x. invert (msub (identity (length (array m)))
                 (smul (complex_of_real ((zn - z) / (zn + z))) (array m))) = Inr x
           \<and> m' = \<lparr>array = mmul (msub (array m) (mscale (identity (length (array m)))
                                  (complex_of_real ((zn - z) / (zn + z))))) x,
                    type = TYPE_S, z0 = Some zn\<rparr>"
proof -
  let ?r = "complex_of_real ((zn - z) / (zn + z))"
  let ?n = "length (array m)"
  from assms obtain x res where
    x: "invert (msub (identity ?n) (smul ?r (array m))) = Inr x"
    and d: "np_dot (msub (array m) (mscale (identity ?n) ?r)) x = Inr res"
    and n: "NPortMatrix_new res TYPE_S (Some zn) = Inr m'"
    unfolding NPortMatrix_renormalize_def
    by (auto simp: Let_def bind_eq_Inr split: if_splits)
  have res: "res = mmul (msub (array m) (mscale (identity ?n) ?r)) x"
    using d by (auto simp: np_dot_def split: if_splits)
  have "m' = \<lparr>array = res, type = TYPE_S, z0 = Some zn\<rparr>"
    using NPortMatrix_new_Inr[OF n] by (simp add: z0test_def)
  then show ?thesis using x res by simp
qed

lemma renormalize_returns:
  assumes M: "is_mat n n (array m)" and n: "0 < n" and t: "type m = TYPE_S" and z: "z0 m = Some z"
    and ne: "zn \<noteq> z" and nz: "zn + z \<noteq> 0"
    and x: "invert (msub (identity n) (smul (complex_of_real ((zn - z) / (zn + z))) (array m))) = Inr x"
    and xm: "is_mat n n x"
  shows "NPortMatrix_renormalize invert m zn
         = Inr \<lparr>array = mmul (msub (array m) (mscale (identity n)
                                  (complex_of_real ((zn - z) / (zn + z))))) x,
                type = TYPE_S, z0 = Some zn\<rparr>"
proof -
  let ?r = "complex_of_real ((zn - z) / (zn + z))"
  let ?a = "msub (array m) (mscale (identity n) ?r)"
  have len: "length (array m) = n" using M by (simp add: is_mat_def)
  have a: "is_mat n n ?a" by (intro is_mat_msub is_mat_mscale is_mat_identity M)
  have d: "np_dot ?a x = Inr (mmul ?a x)" by (rule np_dot_Inr[OF a xm n n])
  have p: "is_mat n n (mmul ?a x)" by (rule is_mat_mmul[OF a xm n])
  have new: "NPortMatrix_new (mmul ?a x) TYPE_S (Some zn)
             = Inr \<lparr>array = mmul ?a x, type = TYPE_S, z0 = Some zn\<rparr>"
    by (rule NPortMatrix_new_square[OF p n S_legal]) (simp add: z0test_def)
  show ?thesis
    using t z ne nz x d new by (simp add: NPortMatrix_renormalize_def len)
qed

text \<open>
  Claim C5.  For an S-typed \<open>NPortMatrix\<close> \<open>m\<close> built by the constructor from \<open>M\<close>:
  renormalizing to the impedance it has returns \<open>m\<close> itself; whenever a renormalization to
  \<open>zn\<close> returns \<open>m'\<close>, renormalizing \<open>m'\<close> to \<open>zn\<close> again returns \<open>m'\<close>; and for \<open>zn\<close> different from
  the impedance \<open>z\<close> of \<open>m\<close>, with \<open>r = (zn - z) / (zn + z)\<close>, every result is
  \<open>(M - I r) (I - r M)\<^sup>-\<^sup>1\<close> tagged S and \<open>zn\<close>, and that result is returned whenever \<open>zn + z\<close> is
  not zero and the inversion primitive returns an array of the shape of \<open>M\<close>.
\<close>

theorem NPortMatrix_renormalize_spec:
  assumes new: "NPortMatrix_new M TYPE_S zarg = Inr m"
  shows "(\<forall>z. z0 m = Some z \<longrightarrow> NPortMatrix_renormalize invert m z = Inr m)
       \<and> (\<forall>zn m'. NPortMatrix_renormalize invert m zn = Inr m'
                   \<longrightarrow> NPortMatrix_renormalize invert m' zn = Inr m')
       \<and> (\<forall>zn z m'. z0 m = Some z \<longrightarrow> zn \<noteq> z \<longrightarrow> NPortMatrix_renormalize invert m zn = Inr m'
             \<longrightarrow> (\<exists>x. invert (msub (identity (length M))
                               (smul (complex_of_real ((zn - z) / (zn + z))) M)) = Inr x
                      \<and> m' = \<lparr>array = mmul (msub M (mscale (identity (length M))
                                          (complex_of_real ((zn - z) / (zn + z))))) x,
                               type = TYPE_S, z0 = Some zn\<rparr>))
       \<and> (\<forall>zn z x. z0 m = Some z \<longrightarrow> zn \<noteq> z \<longrightarrow> zn + z \<noteq> 0
             \<longrightarrow> invert (msub (identity (length M))
                               (smul (complex_of_real ((zn - z) / (zn + z))) M)) = Inr x
             \<longrightarrow> is_mat (length M) (length M) x
             \<longrightarrow> NPortMatrix_renormalize invert m zn
                  = Inr \<lparr>array = mmul (msub M (mscale (identity (length M))
                                          (complex_of_real ((zn - z) / (zn + z))))) x,
                         type = TYPE_S, z0 = Some zn\<rparr>)"
proof -
  from NPortMatrix_new_Inr[OF new] have a: "array m = M" and t: "type m = TYPE_S"
    and n: "0 < length M" and M: "is_mat (length M) (length M) M"
    by simp_all
  have 1: "\<forall>z. z0 m = Some z \<longrightarrow> NPortMatrix_renormalize invert m z = Inr m"
    using renormalize_same[OF t] by blast
  have 2: "\<forall>zn m'. NPortMatrix_renormalize invert m zn = Inr m'
                   \<longrightarrow> NPortMatrix_renormalize invert m' zn = Inr m'"
    using renormalize_Inr_tag renormalize_same by blast
  have 3: "\<forall>zn z m'. z0 m = Some z \<longrightarrow> zn \<noteq> z \<longrightarrow> NPortMatrix_renormalize invert m zn = Inr m'
             \<longrightarrow> (\<exists>x. invert (msub (identity (length M))
                               (smul (complex_of_real ((zn - z) / (zn + z))) M)) = Inr x
                      \<and> m' = \<lparr>array = mmul (msub M (mscale (identity (length M))
                                          (complex_of_real ((zn - z) / (zn + z))))) x,
                               type = TYPE_S, z0 = Some zn\<rparr>)"
    using renormalize_formula[of invert m] unfolding a by blast
  have 4: "\<forall>zn z x. z0 m = Some z \<longrightarrow> zn \<noteq> z \<longrightarrow> zn + z \<noteq> 0
             \<longrightarrow> invert (msub (identity (length M))
                               (smul (complex_of_real ((zn - z) / (zn + z))) M)) = Inr x
             \<longrightarrow> is_mat (length M) (length M) x
             \<longrightarrow> NPortMatrix_renormalize invert m zn
                  = Inr \<lparr>array = mmul (msub M (mscale (identity (length M))
                                          (complex_of_real ((zn - z) / (zn + z))))) x,
                         type = TYPE_S, z0 = Some zn\<rparr>"
    using renormalize_returns[of "length M" m, unfolded a, OF M n t] by blast
  show ?thesis using 1 2 3 4 by blast
qed

theorem NPortMatrix_renormalize_spec_witness:
  "NPortMatrix_new [[0, 1 / 2], [1 / 2, 0]] TYPE_S None
     = Inr \<lparr>array = [[0, 1 / 2], [1 / 2, 0]], type = TYPE_S, z0 = Some 50\<rparr>
   \<and> NPortMatrix_renormalize inv_small \<lparr>array = [[0, 1 / 2], [1 / 2, 0]], type = TYPE_S, z0 = Some 50\<rparr> 50
     = Inr \<lparr>array = [[0, 1 / 2], [1 / 2, 0]], type = TYPE_S, z0 = Some 50\<rparr>
   \<and> NPortMatrix_renormalize inv_small \<lparr>array = [[0, 1 / 2], [1 / 2, 0]], type = TYPE_S, z0 = Some 50\<rparr> 150
     = Inr \<lparr>array = [[- (2 / 5), 2 / 5], [2 / 5, - (2 / 5)]], type = TYPE_S, z0 = Some 150\<rparr>
   \<and> NPortMatrix_renormalize inv_small
        \<lparr>array = [[- (2 / 5), 2 / 5], [2 / 5, - (2 / 5)]], type = TYPE_S, z0 = Some 150\<rparr> 150
     = Inr \<lparr>array = [[- (2 / 5), 2 / 5], [2 / 5, - (2 / 5)]], type = TYPE_S, z0 = Some 150\<rparr>"
proof -
  let ?S = "[[0, 1 / 2], [1 / 2, 0]] :: cmatrix"
  let ?m = "\<lparr>array = ?S, type = TYPE_S, z0 = Some 50\<rparr> :: NPortMatrix"
  have new: "NPortMatrix_new ?S TYPE_S None = Inr ?m"
    by (simp add: eval_defs)
  have x: "invert_at = Inr [[16 / 15, 4 / 15], [4 / 15, 16 / 15]]"
    if "invert_at = inv_small (msub (identity (length ?S))
                       (smul (complex_of_real ((150 - 50) / (150 + 50))) ?S))" for invert_at
    using that by (simp add: eval_defs)
  have p: "mmul (msub ?S (mscale (identity (length ?S)) (complex_of_real ((150 - 50) / (150 + 50)))))
             [[16 / 15, 4 / 15], [4 / 15, 16 / 15]] = [[- (2 / 5), 2 / 5], [2 / 5, - (2 / 5)]]"
    by (simp add: eval_defs)
  have s: "is_mat (length ?S) (length ?S) [[16 / 15, 4 / 15], [4 / 15, 16 / 15 :: complex]]"
    by (simp add: eval_defs)
  note t = NPortMatrix_renormalize_spec[OF new, of inv_small]
  have a: "NPortMatrix_renormalize inv_small ?m 50 = Inr ?m" using t by simp
  have b: "NPortMatrix_renormalize inv_small ?m 150
           = Inr \<lparr>array = [[- (2 / 5), 2 / 5], [2 / 5, - (2 / 5)]], type = TYPE_S, z0 = Some 150\<rparr>"
    using t x[OF refl] s p by simp
  have c: "NPortMatrix_renormalize inv_small
        \<lparr>array = [[- (2 / 5), 2 / 5], [2 / 5, - (2 / 5)]], type = TYPE_S, z0 = Some 150\<rparr> 150
     = Inr \<lparr>array = [[- (2 / 5), 2 / 5], [2 / 5, - (2 / 5)]], type = TYPE_S, z0 = Some 150\<rparr>"
    using t b by blast
  show ?thesis using new a b c by blast
qed

subsection \<open>Port recombination\<close>

lemma length_transform_row: "length (transform_row n pset) = n"
  by (cases pset) simp_all

lemma recombine_row_valid:
  assumes "valid_portset n pset"
  shows "\<exists>row. recombine_row n pset = Inr row \<and> map complex_of_int row = transform_row n pset"
proof (cases pset)
  case (PInt k)
  with assms have k: "k \<noteq> 0" "\<bar>k\<bar> \<le> int n" by simp_all
  show ?thesis
  proof (cases "0 < k")
    case True
    with k have r: "recombine_row n pset = Inr ((replicate n 0)[nat (k - 1) := 1])"
      by (simp add: PInt recombine_row_def py_setitem_def except_IndexError_def)
    have "map complex_of_int ((replicate n 0)[nat (k - 1) := 1]) = transform_row n pset"
      using True k by (auto simp: PInt intro!: nth_equalityI simp: nth_list_update)
    with r show ?thesis by blast
  next
    case False
    with k have r: "recombine_row n pset = Inr ((replicate n 0)[nat (- k - 1) := - 1])"
      by (simp add: PInt recombine_row_def py_setitem_def except_IndexError_def)
    have "map complex_of_int ((replicate n 0)[nat (- k - 1) := - 1]) = transform_row n pset"
      using False k by (auto simp: PInt intro!: nth_equalityI simp: nth_list_update)
    with r show ?thesis by blast
  qed
next
  case (PTuple ps)
  with assms have l: "length ps = 2" and p: "1 \<le> ps ! 0" "ps ! 0 \<le> int n"
    and q: "1 \<le> ps ! 1" "ps ! 1 \<le> int n" by simp_all
  have r: "recombine_row n pset
           = Inr ((replicate n 0)[nat (ps ! 0 - 1) := 1, nat (ps ! 1 - 1) := - 1])"
    using l p q by (simp add: PTuple recombine_row_def py_setitem_def except_IndexError_def)
  define a b where "a = nat (ps ! 0 - 1)" and "b = nat (ps ! 1 - 1)"
  have ab: "a < n" "b < n" "ps ! 0 = int a + 1" "ps ! 1 = int b + 1"
    using p q by (simp_all add: a_def b_def)
  have "map complex_of_int ((replicate n 0)[a := 1, b := - 1]) = transform_row n pset"
  proof (rule nth_equalityI)
    show "length (map complex_of_int ((replicate n 0)[a := 1, b := - 1]))
          = length (transform_row n pset)"
      by (simp add: length_transform_row)
  next
    fix i assume "i < length (map complex_of_int ((replicate n 0)[a := 1, b := - 1]))"
    then have i: "i < n" by simp
    show "map complex_of_int ((replicate n 0)[a := 1, b := - 1]) ! i = transform_row n pset ! i"
      using i ab by (simp add: PTuple nth_list_update)
  qed
  with r show ?thesis unfolding a_def b_def by blast
qed

lemma mapM_recombine_rows:
  assumes "list_all (valid_portset n) psets"
  shows "\<exists>rows. mapM (recombine_row n) psets = Inr rows
           \<and> map (map complex_of_int) rows = map (transform_row n) psets"
  using assms
proof (induction psets)
  case Nil
  then show ?case by simp
next
  case (Cons a psets)
  then obtain rows where rows: "mapM (recombine_row n) psets = Inr rows"
      "map (map complex_of_int) rows = map (transform_row n) psets" by auto
  from Cons.prems obtain row where row: "recombine_row n a = Inr row"
      "map complex_of_int row = transform_row n a"
    using recombine_row_valid[of n a] by auto
  show ?case using rows row by simp
qed

lemma is_mat_transform: "is_mat (length psets) n (map (transform_row n) psets)"
  by (simp add: is_mat_def list_all_length length_transform_row)

lemma is_mat_transpose_m:
  assumes "is_mat r c a" "0 < r"
  shows "is_mat c r (transpose_m a)"
proof -
  have "length (hd a) = c" using assms by (cases a) (auto simp: is_mat_def)
  moreover have "length a = r" using assms by (simp add: is_mat_def)
  ultimately show ?thesis by (simp add: transpose_m_def is_mat_def list_all_length)
qed

lemma recombine_valid:
  assumes new: "NPortMatrix_new Z TYPE_Z None = Inr m"
    and ne: "psets \<noteq> []" and valid: "list_all (valid_portset (ports m)) psets"
  shows "NPortMatrix_recombine m psets
         = Inr \<lparr>array = mmul (mmul (map (transform_row (ports m)) psets) Z)
                           (transpose_m (map (transform_row (ports m)) psets)),
                type = TYPE_Z, z0 = None\<rparr>"
proof -
  define n where "n = length Z"
  define k where "k = length psets"
  let ?T = "map (transform_row n) psets"
  from NPortMatrix_new_Inr[OF new] have m: "array m = Z" "type m = TYPE_Z" "z0 m = None"
    and n: "0 < n" and Z: "is_mat n n Z"
    by (simp_all add: n_def z0test_def)
  have pn: "ports m = n" by (simp add: ports_def m n_def)
  have k: "0 < k" using ne by (simp add: k_def)
  from mapM_recombine_rows[OF valid] obtain rows where
    rows: "mapM (recombine_row n) psets = Inr rows" "map (map complex_of_int) rows = ?T"
    by (auto simp: pn)
  have "rows \<noteq> []" using rows(2) ne by auto
  then have npm: "np_matrix rows = ?T" using rows(2) by (simp add: np_matrix_def)
  have T: "is_mat k n ?T" unfolding k_def by (rule is_mat_transform)
  have d1: "np_dot ?T Z = Inr (mmul ?T Z)" by (rule np_dot_Inr[OF T Z n k])
  have TZ: "is_mat k n (mmul ?T Z)" by (rule is_mat_mmul[OF T Z n])
  have Tt: "is_mat n k (transpose_m ?T)" by (rule is_mat_transpose_m[OF T k])
  have d2: "np_dot (mmul ?T Z) (transpose_m ?T) = Inr (mmul (mmul ?T Z) (transpose_m ?T))"
    by (rule np_dot_Inr[OF TZ Tt n k])
  have R: "is_mat k k (mmul (mmul ?T Z) (transpose_m ?T))" by (rule is_mat_mmul[OF TZ Tt n])
  have "NPortMatrix_new (mmul (mmul ?T Z) (transpose_m ?T)) TYPE_Z None
        = Inr \<lparr>array = mmul (mmul ?T Z) (transpose_m ?T), type = TYPE_Z, z0 = None\<rparr>"
    by (rule NPortMatrix_new_square[OF R k Z_legal]) (simp add: z0test_def)
  then show ?thesis
    using rows(1) npm d1 d2 by (simp add: NPortMatrix_recombine_def m pn Let_def)
qed

lemmas recombine_eval_defs =
  NPortMatrix_recombine_def recombine_row_def py_setitem_def except_IndexError_def ports_def
  np_matrix_def np_dot_def transpose_m_def

lemma recombine_pair_example:
  "NPortMatrix_recombine \<lparr>array = [[z11, z12], [z21, z22]], type = TYPE_Z, z0 = None\<rparr> [PTuple [1, 2]]
   = Inr \<lparr>array = [[z11 - z12 - z21 + z22]], type = TYPE_Z, z0 = None\<rparr>"
  by (simp add: recombine_eval_defs eval_defs)

text \<open>
  Claim C6.  For a Z-typed \<open>NPortMatrix\<close> \<open>m\<close> built from \<open>Z\<close> and a non-empty list of port
  sets whose entries are non-zero signed indices or pairs of indices, all between 1 and the
  port count, \<open>recombine\<close> returns \<open>T Z T\<^sup>t\<close> under the type and (absent) impedance of \<open>m\<close>, where
  row \<open>i\<close> of \<open>T\<close> is the transform row of entry \<open>i\<close>.  In particular the pair \<open>(1, 2)\<close> on the
  2-port \<open>[[z11, z12], [z21, z22]]\<close> gives the 1\<times>1 matrix \<open>z11 - z12 - z21 + z22\<close>.
\<close>

theorem NPortMatrix_recombine_spec:
  "(NPortMatrix_new Z TYPE_Z None = Inr m \<longrightarrow> psets \<noteq> []
      \<longrightarrow> list_all (valid_portset (ports m)) psets
      \<longrightarrow> NPortMatrix_recombine m psets
          = Inr \<lparr>array = mmul (mmul (map (transform_row (ports m)) psets) Z)
                            (transpose_m (map (transform_row (ports m)) psets)),
                 type = type m, z0 = z0 m\<rparr>)
   \<and> NPortMatrix_recombine \<lparr>array = [[z11, z12], [z21, z22]], type = TYPE_Z, z0 = None\<rparr>
        [PTuple [1, 2]]
     = Inr \<lparr>array = [[z11 - z12 - z21 + z22]], type = TYPE_Z, z0 = None\<rparr>"
proof -
  have "type m = TYPE_Z \<and> z0 m = None" if "NPortMatrix_new Z TYPE_Z None = Inr m"
    using NPortMatrix_new_Inr[OF that] by (simp add: z0test_def)
  then show ?thesis using recombine_valid[of Z m psets] recombine_pair_example by simp
qed

theorem NPortMatrix_recombine_spec_witness:
  "NPortMatrix_new [[1, 2, 3], [4, 5, 6], [7, 8, 10]] TYPE_Z None
     = Inr \<lparr>array = [[1, 2, 3], [4, 5, 6], [7, 8, 10]], type = TYPE_Z, z0 = None\<rparr>
   \<and> list_all (valid_portset 3) [PTuple [1, 3], PInt (- 2)]
   \<and> NPortMatrix_recombine \<lparr>array = [[1, 2, 3], [4, 5, 6], [7, 8, 10]], type = TYPE_Z, z0 = None\<rparr>
        [PTuple [1, 3], PInt (- 2)]
     = Inr \<lparr>array = [[1, 6], [2, 5]], type = TYPE_Z, z0 = None\<rparr>"
proof -
  let ?Z = "[[1, 2, 3], [4, 5, 6], [7, 8, 10]] :: cmatrix"
  let ?m = "\<lparr>array = ?Z, type = TYPE_Z, z0 = None\<rparr> :: NPortMatrix"
  have new: "NPortMatrix_new ?Z TYPE_Z None = Inr ?m" by (simp add: eval_defs)
  have p: "ports ?m = 3" by (simp add: ports_def)
  have v: "list_all (valid_portset 3) [PTuple [1, 3], PInt (- 2)]" by simp
  have e: "mmul (mmul (map (transform_row 3) [PTuple [1, 3], PInt (- 2)]) ?Z)
                (transpose_m (map (transform_row 3) [PTuple [1, 3], PInt (- 2)]))
           = [[1, 6], [2, 5]]"
    by (simp add: eval_defs transpose_m_def numeral_3_eq_3)
  show ?thesis
    using NPortMatrix_recombine_spec[of ?Z ?m "[PTuple [1, 3], PInt (- 2)]"] new v e p by simp
qed

text \<open>
  Claim C8 fails on the code for a pair entry with port index 0: item assignment at index
  \<open>0 - 1 = - 1\<close> writes the last column and raises nothing, so the pair \<open>(0, 1)\<close> on a 2-port
  is accepted and treated as the pair \<open>(2, 1)\<close>, while the single index \<open>0\<close> is refused by the
  assertion of the other branch.
\<close>

theorem recombine_pair_zero_accepted:
  "NPortMatrix_recombine \<lparr>array = [[1, 2], [3, 5]], type = TYPE_Z, z0 = None\<rparr> [PTuple [0, 1]]
   = Inr \<lparr>array = [[1]], type = TYPE_Z, z0 = None\<rparr>
   \<and> NPortMatrix_recombine \<lparr>array = [[1, 2], [3, 5]], type = TYPE_Z, z0 = None\<rparr> [PTuple [2, 1]]
   = Inr \<lparr>array = [[1]], type = TYPE_Z, z0 = None\<rparr>
   \<and> NPortMatrix_recombine \<lparr>array = [[1, 2], [3, 5]], type = TYPE_Z, z0 = None\<rparr> [PInt 0]
   = Inl AssertionError"
  by (simp add: recombine_eval_defs eval_defs)

subsection \<open>Partition into the 2n-port block form\<close>

lemma nth_transpose_m:
  assumes "is_mat r c a" "0 < r" "i < c" "j < r"
  shows "transpose_m a ! i ! j = a ! j ! i"
proof -
  have "length (hd a) = c" using assms(1,2) by (cases a) (auto simp: is_mat_def)
  moreover have "length a = r" using assms(1) by (simp add: is_mat_def)
  ultimately show ?thesis using assms(3,4) by (simp add: transpose_m_def)
qed

lemma transpose_m_twice:
  assumes a: "is_mat r c a" and r: "0 < r" and c: "0 < c"
  shows "transpose_m (transpose_m a) = a"
proof (rule mat_eqI[of r c])
  have t: "is_mat c r (transpose_m a)" by (rule is_mat_transpose_m[OF a r])
  show "is_mat r c (transpose_m (transpose_m a))" by (rule is_mat_transpose_m[OF t c])
  show "is_mat r c a" by fact
  fix i j assume ij: "i < r" "j < c"
  show "transpose_m (transpose_m a) ! i ! j = a ! i ! j"
    using nth_transpose_m[OF t c ij] nth_transpose_m[OF a r ij(2,1)] by simp
qed

lemma map_nth_four:
  assumes "length xs = 4"
  shows "map (\<lambda>i. xs ! nat i) [0, 1, 2, 3 :: int] = xs"
proof -
  from assms obtain a b c d where "xs = [a, b, c, d]"
    by (auto simp: numeral_eq_Suc length_Suc_conv)
  then show ?thesis by simp
qed

lemma shuffle_identity_four:
  assumes a: "is_mat 4 4 a"
  shows "shuffle a [0, 1, 2, 3] = a"
proof -
  have la: "length a = 4" using a by (simp add: is_mat_def)
  have t: "is_mat 4 4 (transpose_m a)" by (rule is_mat_transpose_m[OF a]) simp
  then have lt: "length (transpose_m a) = 4" by (simp add: is_mat_def)
  show ?thesis
    unfolding shuffle_def Let_def map_nth_four[OF la] map_nth_four[OF lt]
    by (rule transpose_m_twice[OF a]) simp_all
qed

lemma asserts_imply_partition:
  fixes ins outs :: "int list" and n :: nat
  assumes li: "length ins = n" and lo: "length outs = n"
    and card: "card (set ins \<union> set outs) = 2 * n"
    and mn: "Min (set ins \<union> set outs) = 1" and mx: "Max (set ins \<union> set outs) = 2 * int n"
    and n: "0 < n"
  shows "set ins \<inter> set outs = {} \<and> set ins \<union> set outs = {1..2 * int n}"
proof -
  let ?A = "set ins \<union> set outs"
  have fin: "finite ?A" by simp
  have ne: "?A \<noteq> {}" using card n by auto
  have sub: "?A \<subseteq> {1..2 * int n}"
  proof
    fix x assume x: "x \<in> ?A"
    have "Min ?A \<le> x" by (rule Min_le[OF fin x])
    moreover have "x \<le> Max ?A" by (rule Max_ge[OF fin x])
    ultimately show "x \<in> {1..2 * int n}" using mn mx by simp
  qed
  have "card {1..2 * int n} = 2 * n" by simp
  then have eq: "?A = {1..2 * int n}"
    using card_subset_eq[OF _ sub] card by simp
  have ci: "card (set ins) \<le> n" using card_length[of ins] li by simp
  have co: "card (set outs) \<le> n" using card_length[of outs] lo by simp
  have "card (set ins) + card (set outs) = card ?A + card (set ins \<inter> set outs)"
    by (rule card_Un_Int) simp_all
  then have "card (set ins \<inter> set outs) = 0" using ci co card by linarith
  then have "set ins \<inter> set outs = {}" by simp
  then show ?thesis using eq by simp
qed

lemma twonportmatrix_rejects:
  assumes ev: "ports m mod 2 = 0" and pos: "0 < ports m"
    and bad: "\<not> (length ins = ports m div 2 \<and> length outs = ports m div 2
               \<and> set ins \<inter> set outs = {} \<and> set ins \<union> set outs = {1..2 * int (ports m div 2)})"
  shows "NPortMatrix_twonportmatrix TwoNPortMatrix m (Some ins) (Some outs) = Inl AssertionError"
proof -
  define n where "n = ports m div 2"
  have n: "0 < n" using ev pos unfolding n_def by presburger
  have "length ins \<noteq> n \<or> length outs \<noteq> n \<or> card (set ins \<union> set outs) \<noteq> 2 * n
        \<or> \<not> (Min (set ins \<union> set outs) = 1 \<and> Max (set ins \<union> set outs) = 2 * int n)"
    using asserts_imply_partition[of ins n outs] bad n unfolding n_def by blast
  then show ?thesis
    using ev by (auto simp: NPortMatrix_twonportmatrix_def Let_def n_def)
qed

lemma twonportmatrix_default_four:
  assumes a: "is_mat 4 4 (array m)"
  shows "NPortMatrix_twonportmatrix TwoNPortMatrix m (Some [1, 2]) (Some [3, 4])
         = NPortMatrix_twonportmatrix TwoNPortMatrix m None None"
proof -
  have p: "ports m = 4" using a by (simp add: ports_def is_mat_def)
  have c: "card (set [1, 2 :: int] \<union> set [3, 4]) = 4" by simp
  have mn: "Min (set [1, 2 :: int] \<union> set [3, 4]) = 1" by simp
  have mx: "Max (set [1, 2 :: int] \<union> set [3, 4]) = 4" by simp
  show ?thesis
    unfolding NPortMatrix_twonportmatrix_def p Let_def
    using c mn mx shuffle_identity_four[OF a] by simp
qed

text \<open>
  Claim C7.  For a matrix accepted by the constructor: with four ports, the call with
  \<open>inports = [1, 2]\<close> and \<open>outports = [3, 4]\<close> gives what the call without arguments gives,
  namely the four 2\<times>2 quadrants of the matrix handed to \<open>TwoNPortMatrix\<close> with the type and
  impedance; and with an even number \<open>2 n\<close> of ports, two port lists that do not have \<open>n\<close>
  entries each, or overlap, or do not cover \<open>1, \<dots>, 2 n\<close> exactly are refused by an assertion.
\<close>

theorem NPortMatrix_twonportmatrix_port_sets:
  assumes new: "NPortMatrix_new M ty zarg = Inr m"
  shows "(ports m = 4 \<longrightarrow>
            NPortMatrix_twonportmatrix TwoNPortMatrix m (Some [1, 2]) (Some [3, 4])
              = NPortMatrix_twonportmatrix TwoNPortMatrix m None None
          \<and> NPortMatrix_twonportmatrix TwoNPortMatrix m None None
              = TwoNPortMatrix (quadrants 2 M) (type m) (z0 m))
       \<and> (ports m mod 2 = 0 \<longrightarrow>
            \<not> (length ins = ports m div 2 \<and> length outs = ports m div 2
               \<and> set ins \<inter> set outs = {} \<and> set ins \<union> set outs = {1..2 * int (ports m div 2)})
            \<longrightarrow> NPortMatrix_twonportmatrix TwoNPortMatrix m (Some ins) (Some outs)
                = Inl AssertionError)"
proof -
  from NPortMatrix_new_Inr[OF new] have a: "array m = M" and pos: "0 < ports m"
    and M: "is_mat (ports m) (ports m) (array m)"
    by (simp_all add: ports_def)
  have 1: "NPortMatrix_twonportmatrix TwoNPortMatrix m (Some [1, 2]) (Some [3, 4])
              = NPortMatrix_twonportmatrix TwoNPortMatrix m None None" if "ports m = 4"
    using twonportmatrix_default_four[of m TwoNPortMatrix] M that by simp
  have 2: "NPortMatrix_twonportmatrix TwoNPortMatrix m None None
              = TwoNPortMatrix (quadrants 2 M) (type m) (z0 m)" if "ports m = 4"
    using that a by (simp add: NPortMatrix_twonportmatrix_def)
  show ?thesis using 1 2 twonportmatrix_rejects[OF _ pos, of ins outs TwoNPortMatrix] by blast
qed

theorem NPortMatrix_twonportmatrix_port_sets_witness:
  "NPortMatrix_new [[1, 2, 3, 4], [5, 6, 7, 8], [9, 10, 11, 12], [13, 14, 15, 16]] TYPE_S (Some 75)
     = Inr \<lparr>array = [[1, 2, 3, 4], [5, 6, 7, 8], [9, 10, 11, 12], [13, 14, 15, 16]],
            type = TYPE_S, z0 = Some 75\<rparr>
   \<and> NPortMatrix_twonportmatrix (\<lambda>q t z. Inr (q, t, z))
        \<lparr>array = [[1, 2, 3, 4], [5, 6, 7, 8], [9, 10, 11, 12], [13, 14, 15, 16]],
         type = TYPE_S, z0 = Some 75\<rparr> (Some [1, 2]) (Some [3, 4])
     = Inr ([[[[1, 2], [5, 6]], [[3, 4], [7, 8]]], [[[9, 10], [13, 14]], [[11, 12], [15, 16]]]],
            TYPE_S, Some 75)
   \<and> NPortMatrix_twonportmatrix (\<lambda>q t z. Inr (q, t, z))
        \<lparr>array = [[1, 2, 3, 4], [5, 6, 7, 8], [9, 10, 11, 12], [13, 14, 15, 16]],
         type = TYPE_S, z0 = Some 75\<rparr> (Some [1, 2]) (Some [2, 4])
     = Inl AssertionError"
proof -
  let ?M = "[[1, 2, 3, 4], [5, 6, 7, 8], [9, 10, 11, 12], [13, 14, 15, 16]] :: cmatrix"
  let ?m = "\<lparr>array = ?M, type = TYPE_S, z0 = Some 75\<rparr> :: NPortMatrix"
  have new: "NPortMatrix_new ?M TYPE_S (Some 75) = Inr ?m" by (simp add: eval_defs)
  have p: "ports ?m = 4" by (simp add: ports_def)
  have q: "quadrants 2 ?M
           = [[[[1, 2], [5, 6]], [[3, 4], [7, 8]]], [[[9, 10], [13, 14]], [[11, 12], [15, 16]]]]"
    by (simp add: quadrants_def)
  have bad: "\<not> (length [1, 2 :: int] = ports ?m div 2 \<and> length [2, 4 :: int] = ports ?m div 2
               \<and> set [1, 2 :: int] \<inter> set [2, 4] = {}
               \<and> set [1, 2 :: int] \<union> set [2, 4] = {1..2 * int (ports ?m div 2)})"
    by simp
  show ?thesis
    using NPortMatrix_twonportmatrix_port_sets[OF new, of "\<lambda>q t z. Inr (q, t, z)" "[1, 2]" "[2, 4]"]
      new p q bad by simp
qed

subsection \<open>The common frequency grid\<close>

lemma list_index_append:
  "x \<in> set xs \<Longrightarrow> list_index (xs @ ys) x = list_index xs x"
  by (induction xs) auto

lemma list_index_sorted:
  assumes "sorted u" "distinct u" "x \<in> set u"
  shows "\<exists>i. list_index u x = Inr i
           \<and> take i u = filter (\<lambda>f. f < x) u
           \<and> drop i u = filter (\<lambda>f. x \<le> f) u
           \<and> take (Suc i) u = filter (\<lambda>f. f \<le> x) u"
  using assms
proof (induction u)
  case Nil
  then show ?case by simp
next
  case (Cons y ys)
  have above: "\<forall>z\<in>set ys. y < z" using Cons.prems(1,2) by (auto simp: less_le)
  show ?case
  proof (cases "y = x")
    case True
    have "filter (\<lambda>f. f < x) ys = []" "filter (\<lambda>f. x \<le> f) ys = ys" "filter (\<lambda>f. f \<le> x) ys = []"
      using above True by (auto simp: filter_empty_conv filter_id_conv)
    then show ?thesis using True by simp
  next
    case False
    then have x: "x \<in> set ys" and yx: "y < x" using Cons.prems(3) above by auto
    from Cons.IH[OF _ _ x] Cons.prems(1,2) obtain i where
      i: "list_index ys x = Inr i" "take i ys = filter (\<lambda>f. f < x) ys"
         "drop i ys = filter (\<lambda>f. x \<le> f) ys" "take (Suc i) ys = filter (\<lambda>f. f \<le> x) ys"
      by auto
    show ?thesis using False yx i by simp
  qed
qed

lemma sorted_union: "sorted (sort (remdups (xs @ ys)))" "distinct (sort (remdups (xs @ ys)))"
  "set (sort (remdups (xs @ ys))) = set xs \<union> set ys"
  by simp_all

lemma grid_inclusive:
  fixes u :: "real list"
  assumes u: "sorted u" "distinct u" and lo: "lo \<in> set u" and hi: "hi \<in> set u" and le: "lo \<le> hi"
  shows "\<exists>i j. list_index u lo = Inr i \<and> list_index u hi = Inr j
           \<and> slice u i (j + 1) = filter (\<lambda>f. lo \<le> f \<and> f \<le> hi) u"
proof -
  from list_index_sorted[OF u lo] obtain i where i: "list_index u lo = Inr i" by blast
  from list_index_sorted[OF u hi] obtain j where j: "list_index u hi = Inr j"
    and tj: "take (Suc j) u = filter (\<lambda>f. f \<le> hi) u" by blast
  let ?v = "filter (\<lambda>f. f \<le> hi) u"
  have v: "sorted ?v" "distinct ?v" using u by (simp_all add: sorted_wrt_filter)
  have lov: "lo \<in> set ?v" using lo le by simp
  have "u = ?v @ drop (Suc j) u" using tj append_take_drop_id[of "Suc j" u] by simp
  then have "list_index u lo = list_index ?v lo"
    using list_index_append[OF lov, of "drop (Suc j) u"] by simp
  with list_index_sorted[OF v lov] i have "drop i ?v = filter (\<lambda>f. lo \<le> f) ?v" by auto
  then have "slice u i (j + 1) = filter (\<lambda>f. lo \<le> f \<and> f \<le> hi) u"
    using tj by (simp add: slice_def conj_commute)
  then show ?thesis using i j by blast
qed

lemma grid_exclusive:
  fixes u :: "real list"
  assumes u: "sorted u" "distinct u" and lo: "lo \<in> set u" and hi: "hi \<in> set u" and le: "lo < hi"
  shows "\<exists>i j. list_index u lo = Inr i \<and> list_index u hi = Inr j
           \<and> slice u i j = filter (\<lambda>f. lo \<le> f \<and> f < hi) u"
proof -
  from list_index_sorted[OF u lo] obtain i where i: "list_index u lo = Inr i" by blast
  from list_index_sorted[OF u hi] obtain j where j: "list_index u hi = Inr j"
    and tj: "take j u = filter (\<lambda>f. f < hi) u" by blast
  let ?v = "filter (\<lambda>f. f < hi) u"
  have v: "sorted ?v" "distinct ?v" using u by (simp_all add: sorted_wrt_filter)
  have lov: "lo \<in> set ?v" using lo le by simp
  have "u = ?v @ drop j u" using tj append_take_drop_id[of j u] by simp
  then have "list_index u lo = list_index ?v lo"
    using list_index_append[OF lov, of "drop j u"] by simp
  with list_index_sorted[OF v lov] i have "drop i ?v = filter (\<lambda>f. lo \<le> f) ?v" by auto
  then have "slice u i j = filter (\<lambda>f. lo \<le> f \<and> f < hi) u"
    using tj by (simp add: slice_def conj_commute)
  then show ?thesis using i j by blast
qed

lemma filter_sorted_union:
  fixes xs ys :: "real list"
  shows "filter P (sort (remdups (xs @ ys))) = sorted_list_of_set {f \<in> set xs \<union> set ys. P f}"
proof (rule sorted_distinct_set_unique)
  show "sorted (filter P (sort (remdups (xs @ ys))))" by (simp add: sorted_wrt_filter)
  show "distinct (filter P (sort (remdups (xs @ ys))))" by simp
  have fin: "finite {f \<in> set xs \<union> set ys. P f}" by simp
  show "sorted (sorted_list_of_set {f \<in> set xs \<union> set ys. P f})" by simp
  show "distinct (sorted_list_of_set {f \<in> set xs \<union> set ys. P f})" by simp
  show "set (filter P (sort (remdups (xs @ ys)))) = set (sorted_list_of_set {f \<in> set xs \<union> set ys. P f})"
    using fin by auto
qed

subsection \<open>Interpolated sweeps\<close>

lemma mapM_ex:
  assumes "\<forall>x\<in>set xs. \<exists>y. f x = Inr y \<and> P y"
  shows "\<exists>ys. mapM f xs = Inr ys \<and> length ys = length xs \<and> list_all P ys
           \<and> (\<forall>i<length xs. f (xs ! i) = Inr (ys ! i))"
  using assms
proof (induction xs)
  case Nil
  then show ?case by simp
next
  case (Cons x xs)
  then obtain ys where ys: "mapM f xs = Inr ys" "length ys = length xs" "list_all P ys"
      "\<forall>i<length xs. f (xs ! i) = Inr (ys ! i)" by auto
  from Cons.prems obtain y where y: "f x = Inr y" "P y" by auto
  have "\<forall>i<length (x # xs). f ((x # xs) ! i) = Inr ((y # ys) ! i)"
    using y(1) ys(4) by (auto simp: nth_Cons')
  then show ?case using ys y by auto
qed

lemma z0test_idem: "z0test ty z = Inr z' \<Longrightarrow> z0test ty z' = Inr z'"
  by (auto simp: z0test_def split: if_splits option.splits)

lemma NPort_new_wf:
  assumes "NPort_new fs ms ty z = Inr s"
  shows "0 < NPort_ports s" "list_all (is_mat (NPort_ports s) (NPort_ports s)) (array s)"
    "array s \<noteq> []" "freqs s \<noteq> []" "length (freqs s) = length (array s)"
    "type s \<in> set legal_types" "z0test (type s) (z0 s) = Inr (z0 s)"
proof -
  note h = NPort_new_Inr[OF assms]
  show "0 < NPort_ports s" "list_all (is_mat (NPort_ports s) (NPort_ports s)) (array s)"
    "array s \<noteq> []" "length (freqs s) = length (array s)" "type s \<in> set legal_types"
    using h by (simp_all add: NPort_ports_def)
  then show "freqs s \<noteq> []" by auto
  show "z0test (type s) (z0 s) = Inr (z0 s)"
    using h z0test_idem[of ty z "z0 s"] by simp
qed

lemma NPort_at_ok:
  assumes wf: "0 < NPort_ports a" "type a \<in> set legal_types" "z0test (type a) (z0 a) = Inr (z0 a)"
    and ip: "interpolates_within interp1d a"
    and g: "g \<noteq> []" "\<forall>q\<in>set g. hd (freqs a) \<le> q \<and> q \<le> last (freqs a)"
  shows "\<exists>ys. NPort_at interp1d a g = Inr \<lparr>array = ys, type = type a, z0 = z0 a, freqs = g\<rparr>
           \<and> length ys = length g \<and> list_all (is_mat (NPort_ports a) (NPort_ports a)) ys
           \<and> (\<forall>i<length g. interp1d (freqs a) (array a) (g ! i) = Inr (ys ! i))"
proof -
  let ?n = "NPort_ports a"
  have "\<forall>q\<in>set g. \<exists>m. interp1d (freqs a) (array a) q = Inr m \<and> is_mat ?n ?n m"
    using ip g(2) unfolding interpolates_within_def by blast
  from mapM_ex[OF this] obtain ys where
    ys: "mapM (interp1d (freqs a) (array a)) g = Inr ys" "length ys = length g"
        "list_all (is_mat ?n ?n) ys" "\<forall>i<length g. interp1d (freqs a) (array a) (g ! i) = Inr (ys ! i)"
    by blast
  have ne: "ys \<noteq> []" using ys(2) g(1) by auto
  have "NPort_new g ys (type a) (z0 a) = Inr \<lparr>array = ys, type = type a, z0 = z0 a, freqs = g\<rparr>"
    by (rule NPort_new_ok[OF ys(2)[symmetric] ne wf(1) ys(3) wf(2,3)])
  then show ?thesis using ys by (simp add: NPort_at_def)
qed

lemma NPort_at_single_eq:
  assumes wf: "0 < NPort_ports a" "type a \<in> set legal_types" "z0test (type a) (z0 a) = Inr (z0 a)"
    and m: "interp1d (freqs a) (array a) q = Inr m" "is_mat (NPort_ports a) (NPort_ports a) m"
  shows "NPort_at_single interp1d a q = Inr \<lparr>array = m, type = type a, z0 = z0 a\<rparr>"
proof -
  have "NPort_new [q] [m] (type a) (z0 a) = Inr \<lparr>array = [m], type = type a, z0 = z0 a, freqs = [q]\<rparr>"
    by (rule NPort_new_ok[OF _ _ wf(1) _ wf(2,3)]) (use m(2) in simp_all)
  moreover have "NPortMatrix_new m (type a) (z0 a) = Inr \<lparr>array = m, type = type a, z0 = z0 a\<rparr>"
    by (rule NPortMatrix_new_square[OF m(2) wf(1,2,3)])
  ultimately show ?thesis
    using m(1) by (simp add: NPort_at_single_def NPort_at_def NPortBase_getitem_def)
qed

lemma is_mat_map2:
  assumes "is_mat r c x" "is_mat r c y"
  shows "is_mat r c (map2 (map2 f) x y)"
  using assms by (simp add: is_mat_def list_all_length)

lemma list_all_map2:
  assumes "list_all P xs" "list_all P ys" "\<And>x y. P x \<Longrightarrow> P y \<Longrightarrow> Q (f x y)"
  shows "list_all Q (map2 f xs ys)"
  using assms by (auto simp: list_all_length)

lemma hd_is_mat:
  assumes "list_all (is_mat n n) ys" "ys \<noteq> []"
  shows "length (hd ys) = n"
  using assms by (cases ys) (auto simp: is_mat_def)

lemma in_set_nonempty: "x \<in> set xs \<Longrightarrow> xs \<noteq> []"
  by auto

subsection \<open>Arithmetic of two sweeps\<close>

lemma make_op_aligned:
  assumes a: "NPort_new fa ma tya za = Inr a" and b: "NPort_new fb mb tyb zb = Inr b"
    and ty: "type b = type a" and z: "z0 b = z0 a" and p: "NPort_ports b = NPort_ports a"
    and ov: "max (hd (freqs a)) (hd (freqs b)) \<le> min (last (freqs a)) (last (freqs b))"
    and ia: "interpolates_within interp1d a" and ib: "interpolates_within interp1d b"
    and nm: "name \<noteq> Div" "name \<noteq> RDiv"
  shows "\<exists>r xs ys. make_op interp1d name a (Sweep b) = Inr r
           \<and> freqs r = filter (\<lambda>f. max (hd (freqs a)) (hd (freqs b)) \<le> f
                                 \<and> f \<le> min (last (freqs a)) (last (freqs b)))
                          (sort (remdups (freqs a @ freqs b)))
           \<and> type r = type a \<and> z0 r = z0 a
           \<and> length xs = length (freqs r) \<and> length ys = length (freqs r)
           \<and> (\<forall>i<length (freqs r). interp1d (freqs a) (array a) (freqs r ! i) = Inr (xs ! i)
                                   \<and> interp1d (freqs b) (array b) (freqs r ! i) = Inr (ys ! i))
           \<and> list_all (is_mat (NPort_ports a) (NPort_ports a)) xs
           \<and> list_all (is_mat (NPort_ports a) (NPort_ports a)) ys
           \<and> array r = map2 (map2 (map2 (ufunc name))) xs ys"
proof -
  let ?n = "NPort_ports a"
  let ?lo = "max (hd (freqs a)) (hd (freqs b))"
  let ?hi = "min (last (freqs a)) (last (freqs b))"
  let ?u = "sort (remdups (freqs a @ freqs b))"
  let ?g = "filter (\<lambda>f. ?lo \<le> f \<and> f \<le> ?hi) ?u"
  note wa = NPort_new_wf[OF a] and wb = NPort_new_wf[OF b]
  have lo: "?lo \<in> set ?u" using wa(4) wb(4) by (auto simp: max_def)
  have hi: "?hi \<in> set ?u" using wa(4) wb(4) by (auto simp: min_def)
  from grid_inclusive[OF sorted_union(1,2) lo hi ov] obtain i j where
    ij: "list_index ?u ?lo = Inr i" "list_index ?u ?hi = Inr j" "slice ?u i (j + 1) = ?g"
    by blast
  have "?lo \<in> set ?g" unfolding set_filter using lo ov by blast
  then have gne: "?g \<noteq> []" by (rule in_set_nonempty)
  have ga: "\<forall>q\<in>set ?g. hd (freqs a) \<le> q \<and> q \<le> last (freqs a)" by auto
  have gb: "\<forall>q\<in>set ?g. hd (freqs b) \<le> q \<and> q \<le> last (freqs b)" by auto
  from NPort_at_ok[OF wa(1,6,7) ia gne ga] obtain xs where
    xs: "NPort_at interp1d a ?g = Inr \<lparr>array = xs, type = type a, z0 = z0 a, freqs = ?g\<rparr>"
        "length xs = length ?g" "list_all (is_mat ?n ?n) xs"
        "\<forall>i<length ?g. interp1d (freqs a) (array a) (?g ! i) = Inr (xs ! i)"
    by blast
  from NPort_at_ok[OF wb(1,6,7) ib gne gb] obtain ys where
    ys: "NPort_at interp1d b ?g = Inr \<lparr>array = ys, type = type b, z0 = z0 b, freqs = ?g\<rparr>"
        "length ys = length ?g" "list_all (is_mat ?n ?n) ys"
        "\<forall>i<length ?g. interp1d (freqs b) (array b) (?g ! i) = Inr (ys ! i)"
    unfolding p by blast
  have xne: "xs \<noteq> []" and yne: "ys \<noteq> []" using xs(2) ys(2) gne by auto
  let ?r = "map2 (map2 (map2 (ufunc name))) xs ys"
  have meth: "ndarray_method name xs ys = Inr ?r"
    using nm hd_is_mat[OF xs(3) xne] hd_is_mat[OF ys(3) yne]
    by (simp add: ndarray_method_def)
  have rl: "length (?g) = length ?r" using xs(2) ys(2) by simp
  have rne: "?r \<noteq> []" using rl gne by auto
  have rall: "list_all (is_mat ?n ?n) ?r"
    by (rule list_all_map2[OF xs(3) ys(3)]) (rule is_mat_map2)
  have new: "NPort_new ?g ?r (type a) (z0 a)
             = Inr \<lparr>array = ?r, type = type a, z0 = z0 a, freqs = ?g\<rparr>"
    by (rule NPort_new_ok[OF rl rne wa(1) rall wa(6,7)])
  have "make_op interp1d name a (Sweep b)
        = Inr \<lparr>array = ?r, type = type a, z0 = z0 a, freqs = ?g\<rparr>"
    using ty z wa(4) wb(4) ij xs(1) ys(1) meth new
    by (simp add: make_op_def first_item_def last_item_def Let_def)
  then show ?thesis using xs ys by auto
qed

lemma linear_interp_shape:
  assumes "length xs = length ys" "xs \<noteq> []" "list_all (is_mat n n) ys"
    "hd xs \<le> q" "q \<le> last xs"
  shows "\<exists>m. linear_interp xs ys q = Inr m \<and> is_mat n n m"
  using assms
proof (induction xs ys q rule: linear_interp.induct)
  case (5 x x' xs y y' ys q)
  show ?case
  proof (cases "q \<le> x'")
    case True
    have "is_mat n n (madd y (smul (complex_of_real ((q - x) / (x' - x))) (msub y' y)))"
      using "5.prems"(3) by (intro is_mat_madd is_mat_smul is_mat_msub) simp_all
    then show ?thesis using True "5.prems"(4) by simp
  next
    case False
    then have "\<exists>m. linear_interp (x' # xs) (y' # ys) q = Inr m \<and> is_mat n n m"
      using "5.prems" "5.IH" by simp
    then show ?thesis using False "5.prems"(4) by simp
  qed
qed simp_all

lemma linear_interp_within:
  assumes "NPort_new fs ms ty z = Inr s"
  shows "interpolates_within linear_interp s"
  unfolding interpolates_within_def
  using linear_interp_shape[of "freqs s" "array s" "NPort_ports s"] NPort_new_wf[OF assms]
  by blast

lemma ufunc_Add: "ufunc Add = (+)"
  by (intro ext) simp

text \<open>
  Claim C3, amended.  Two sweeps accepted by the constructor, of one type, one reference
  impedance and one port count, whose frequency ranges overlap (the larger of the first
  frequencies is at most the smaller of the last ones), are added by \<open>+\<close> provided the interpolation
  primitive answers inside the range of each sweep.  The frequencies of the sum are the
  sorted union of both operands' frequencies between those two bounds, both included; the
  sum has the type and impedance of the operands; and its sample at each of these
  frequencies is the entrywise sum of what \<open>at\<close> returns for the two operands at that
  frequency.  For frequencies \<open>[1, 2, 3, 4]\<close> and \<open>[2, 3, 4, 5]\<close> the result has the frequencies
  \<open>[2, 3, 4]\<close>.
\<close>

theorem sweep_addition_aligned:
  assumes a: "NPort_new fa ma tya za = Inr a" and b: "NPort_new fb mb tyb zb = Inr b"
    and ty: "type b = type a" and z: "z0 b = z0 a" and p: "NPort_ports b = NPort_ports a"
    and ov: "max (hd (freqs a)) (hd (freqs b)) \<le> min (last (freqs a)) (last (freqs b))"
    and ia: "interpolates_within interp1d a" and ib: "interpolates_within interp1d b"
  shows "\<exists>r. make_op interp1d Add a (Sweep b) = Inr r
           \<and> freqs r = sorted_list_of_set
                 {f \<in> set (freqs a) \<union> set (freqs b).
                    max (hd (freqs a)) (hd (freqs b)) \<le> f
                    \<and> f \<le> min (last (freqs a)) (last (freqs b))}
           \<and> type r = type a \<and> z0 r = z0 a \<and> length (array r) = length (freqs r)
           \<and> (\<forall>i<length (freqs r). \<exists>x y.
                  NPort_at_single interp1d a (freqs r ! i) = Inr x
                \<and> NPort_at_single interp1d b (freqs r ! i) = Inr y
                \<and> array r ! i = madd (array x) (array y))
           \<and> (freqs a = [1, 2, 3, 4] \<longrightarrow> freqs b = [2, 3, 4, 5] \<longrightarrow> freqs r = [2, 3, 4])"
proof -
  let ?n = "NPort_ports a"
  let ?P = "\<lambda>f. max (hd (freqs a)) (hd (freqs b)) \<le> f \<and> f \<le> min (last (freqs a)) (last (freqs b))"
  note wa = NPort_new_wf[OF a] and wb = NPort_new_wf[OF b]
  from make_op_aligned[OF a b ty z p ov ia ib, of Add] obtain r xs ys where
    r: "make_op interp1d Add a (Sweep b) = Inr r"
    and fr: "freqs r = filter ?P (sort (remdups (freqs a @ freqs b)))"
    and tz: "type r = type a" "z0 r = z0 a"
    and len: "length xs = length (freqs r)" "length ys = length (freqs r)"
    and ip: "\<forall>i<length (freqs r). interp1d (freqs a) (array a) (freqs r ! i) = Inr (xs ! i)
                                   \<and> interp1d (freqs b) (array b) (freqs r ! i) = Inr (ys ! i)"
    and sh: "list_all (is_mat ?n ?n) xs" "list_all (is_mat ?n ?n) ys"
    and ar: "array r = map2 (map2 (map2 (ufunc Add))) xs ys"
    by auto
  have grid: "freqs r = sorted_list_of_set {f \<in> set (freqs a) \<union> set (freqs b). ?P f}"
    using fr filter_sorted_union[of ?P "freqs a" "freqs b"] by simp
  have la: "length (array r) = length (freqs r)" using ar len by simp
  have each: "\<exists>x y. NPort_at_single interp1d a (freqs r ! i) = Inr x
                \<and> NPort_at_single interp1d b (freqs r ! i) = Inr y
                \<and> array r ! i = madd (array x) (array y)" if i: "i < length (freqs r)" for i
  proof -
    have x: "NPort_at_single interp1d a (freqs r ! i) = Inr \<lparr>array = xs ! i, type = type a, z0 = z0 a\<rparr>"
      by (rule NPort_at_single_eq[OF wa(1,6,7)]) (use ip i sh(1) len in \<open>auto simp: list_all_length\<close>)
    have y: "NPort_at_single interp1d b (freqs r ! i) = Inr \<lparr>array = ys ! i, type = type b, z0 = z0 b\<rparr>"
      by (rule NPort_at_single_eq[OF wb(1,6,7)]) (use ip i sh(2) len p in \<open>auto simp: list_all_length\<close>)
    have "array r ! i = madd (xs ! i) (ys ! i)"
      using i len by (simp add: ar ufunc_Add madd_def)
    then show ?thesis using x y by simp
  qed
  have ex: "freqs r = [2, 3, 4]" if "freqs a = [1, 2, 3, 4]" "freqs b = [2, 3, 4, 5]"
    using fr that by simp
  show ?thesis using r grid tz la each ex by blast
qed

theorem sweep_addition_aligned_witness:
  "NPort_new [1, 2, 3, 4] [[[1]], [[2]], [[3]], [[4]]] TYPE_S (Some 75)
     = Inr \<lparr>array = [[[1]], [[2]], [[3]], [[4]]], type = TYPE_S, z0 = Some 75, freqs = [1, 2, 3, 4]\<rparr>
   \<and> NPort_new [2, 3, 4, 5] [[[20]], [[30]], [[40]], [[50]]] TYPE_S (Some 75)
     = Inr \<lparr>array = [[[20]], [[30]], [[40]], [[50]]], type = TYPE_S, z0 = Some 75, freqs = [2, 3, 4, 5]\<rparr>
   \<and> (\<exists>r. make_op linear_interp Add
            \<lparr>array = [[[1]], [[2]], [[3]], [[4]]], type = TYPE_S, z0 = Some 75, freqs = [1, 2, 3, 4]\<rparr>
            (Sweep \<lparr>array = [[[20]], [[30]], [[40]], [[50]]], type = TYPE_S, z0 = Some 75,
                    freqs = [2, 3, 4, 5]\<rparr>) = Inr r
          \<and> freqs r = [2, 3, 4] \<and> type r = TYPE_S \<and> z0 r = Some 75)"
proof -
  let ?a = "\<lparr>array = [[[1]], [[2]], [[3]], [[4]]], type = TYPE_S, z0 = Some 75,
             freqs = [1, 2, 3, 4]\<rparr> :: NPort"
  let ?b = "\<lparr>array = [[[20]], [[30]], [[40]], [[50]]], type = TYPE_S, z0 = Some 75,
             freqs = [2, 3, 4, 5]\<rparr> :: NPort"
  have a: "NPort_new [1, 2, 3, 4] [[[1]], [[2]], [[3]], [[4]]] TYPE_S (Some 75) = Inr ?a"
    by (simp add: NPort_new_def eval_defs)
  have b: "NPort_new [2, 3, 4, 5] [[[20]], [[30]], [[40]], [[50]]] TYPE_S (Some 75) = Inr ?b"
    by (simp add: NPort_new_def eval_defs)
  have p: "NPort_ports ?b = NPort_ports ?a" by (simp add: NPort_ports_def)
  have ov: "max (hd (freqs ?a)) (hd (freqs ?b)) \<le> min (last (freqs ?a)) (last (freqs ?b))"
    by simp
  from sweep_addition_aligned[OF a b _ _ p ov linear_interp_within[OF a] linear_interp_within[OF b]]
  have "\<exists>r. make_op linear_interp Add ?a (Sweep ?b) = Inr r
          \<and> freqs r = [2, 3, 4] \<and> type r = TYPE_S \<and> z0 r = Some 75"
    by auto
  then show ?thesis using a b by blast
qed

text \<open>
  Claim C3 as stated fails for operands of different port counts, which it does not
  exclude: the method \<open>__add__\<close> of \<open>ndarray\<close> follows numpy's shape rules.  For a 2-port and a
  3-port sweep of one type, without impedance, at the same frequencies \<open>[1, 2]\<close>, the operator
  raises \<open>ValueError\<close> and returns no sweep; for a 2-port and a 1-port sweep it returns samples
  in which the single entry of the 1-port is added to every entry of the 2-port.
\<close>

theorem sweep_addition_port_mismatch_counterexample:
  "NPort_new [1, 2] [[[1, 0], [0, 1]], [[2, 0], [0, 2]]] TYPE_Z None
     = Inr \<lparr>array = [[[1, 0], [0, 1]], [[2, 0], [0, 2]]], type = TYPE_Z, z0 = None, freqs = [1, 2]\<rparr>
   \<and> NPort_new [1, 2] [[[1, 0, 0], [0, 1, 0], [0, 0, 1]], [[2, 0, 0], [0, 2, 0], [0, 0, 2]]] TYPE_Z None
     = Inr \<lparr>array = [[[1, 0, 0], [0, 1, 0], [0, 0, 1]], [[2, 0, 0], [0, 2, 0], [0, 0, 2]]],
            type = TYPE_Z, z0 = None, freqs = [1, 2]\<rparr>
   \<and> NPort_new [1, 2] [[[10]], [[20]]] TYPE_Z None
     = Inr \<lparr>array = [[[10]], [[20]]], type = TYPE_Z, z0 = None, freqs = [1, 2]\<rparr>
   \<and> max (hd [1, 2 :: real]) (hd [1, 2]) \<le> min (last [1, 2]) (last [1, 2])
   \<and> make_op linear_interp Add
        \<lparr>array = [[[1, 0], [0, 1]], [[2, 0], [0, 2]]], type = TYPE_Z, z0 = None, freqs = [1, 2]\<rparr>
        (Sweep \<lparr>array = [[[1, 0, 0], [0, 1, 0], [0, 0, 1]], [[2, 0, 0], [0, 2, 0], [0, 0, 2]]],
                type = TYPE_Z, z0 = None, freqs = [1, 2]\<rparr>)
     = Inl (ValueError ''operands could not be broadcast together'')
   \<and> make_op linear_interp Add
        \<lparr>array = [[[1, 0], [0, 1]], [[2, 0], [0, 2]]], type = TYPE_Z, z0 = None, freqs = [1, 2]\<rparr>
        (Sweep \<lparr>array = [[[10]], [[20]]], type = TYPE_Z, z0 = None, freqs = [1, 2]\<rparr>)
     = Inr \<lparr>array = [[[11, 10], [10, 11]], [[22, 20], [20, 22]]], type = TYPE_Z, z0 = None,
            freqs = [1, 2]\<rparr>"
proof -
  note defs = make_op_def first_item_def last_item_def slice_def NPort_at_def
    ndarray_method_def NPort_new_def eval_defs
  have 1: "NPort_new [1, 2] [[[1, 0], [0, 1]], [[2, 0], [0, 2]]] TYPE_Z None
     = Inr \<lparr>array = [[[1, 0], [0, 1]], [[2, 0], [0, 2]]], type = TYPE_Z, z0 = None, freqs = [1, 2]\<rparr>"
    by (simp add: defs)
  have 2: "NPort_new [1, 2] [[[1, 0, 0], [0, 1, 0], [0, 0, 1]], [[2, 0, 0], [0, 2, 0], [0, 0, 2]]] TYPE_Z None
     = Inr \<lparr>array = [[[1, 0, 0], [0, 1, 0], [0, 0, 1]], [[2, 0, 0], [0, 2, 0], [0, 0, 2]]],
            type = TYPE_Z, z0 = None, freqs = [1, 2]\<rparr>"
    by (simp add: defs)
  have 3: "NPort_new [1, 2] [[[10]], [[20]]] TYPE_Z None
     = Inr \<lparr>array = [[[10]], [[20]]], type = TYPE_Z, z0 = None, freqs = [1, 2]\<rparr>"
    by (simp add: defs)
  have 4: "max (hd [1, 2 :: real]) (hd [1, 2]) \<le> min (last [1, 2]) (last [1, 2])" by simp
  have 5: "make_op linear_interp Add
        \<lparr>array = [[[1, 0], [0, 1]], [[2, 0], [0, 2]]], type = TYPE_Z, z0 = None, freqs = [1, 2]\<rparr>
        (Sweep \<lparr>array = [[[1, 0, 0], [0, 1, 0], [0, 0, 1]], [[2, 0, 0], [0, 2, 0], [0, 0, 2]]],
                type = TYPE_Z, z0 = None, freqs = [1, 2]\<rparr>)
     = Inl (ValueError ''operands could not be broadcast together'')"
    by (simp add: defs)
  have 6: "make_op linear_interp Add
        \<lparr>array = [[[1, 0], [0, 1]], [[2, 0], [0, 2]]], type = TYPE_Z, z0 = None, freqs = [1, 2]\<rparr>
        (Sweep \<lparr>array = [[[10]], [[20]]], type = TYPE_Z, z0 = None, freqs = [1, 2]\<rparr>)
     = Inr \<lparr>array = [[[11, 10], [10, 11]], [[22, 20], [20, 22]]], type = TYPE_Z, z0 = None,
            freqs = [1, 2]\<rparr>"
    by (simp add: defs)
  show ?thesis using 1 2 3 4 5 6 by blast
qed

text \<open>
  Claim C4.  For two sweeps of one type whose reference impedances differ, each of the
  installed operators returns the error \<open>operands have different Z0\<close>, whatever the
  frequencies, the samples and the interpolation primitive are: the check precedes the
  alignment of the frequencies, the interpolation and the arithmetic, and nothing else is
  returned.
\<close>

theorem make_op_impedance_mismatch:
  assumes "type b = type a" and "z0 b \<noteq> z0 a"
  shows "make_op interp1d name a (Sweep b) = Inl (ValueError ''operands have different Z0'')"
  using assms by (simp add: make_op_def)

theorem make_op_impedance_mismatch_witness:
  "type \<lparr>array = [[[1 / 2]], [[1 / 3]]], type = TYPE_S, z0 = Some 75, freqs = [1, 2]\<rparr>
     = type \<lparr>array = [[[0]], [[1 / 4]]], type = TYPE_S, z0 = Some 50, freqs = [1, 2]\<rparr>
   \<and> z0 \<lparr>array = [[[1 / 2]], [[1 / 3]]], type = TYPE_S, z0 = Some 75, freqs = [1, 2]\<rparr>
     \<noteq> z0 \<lparr>array = [[[0]], [[1 / 4]]], type = TYPE_S, z0 = Some 50, freqs = [1, 2]\<rparr>
   \<and> list_all (\<lambda>name. make_op linear_interp name
            \<lparr>array = [[[0]], [[1 / 4]]], type = TYPE_S, z0 = Some 50, freqs = [1, 2]\<rparr>
            (Sweep \<lparr>array = [[[1 / 2]], [[1 / 3]]], type = TYPE_S, z0 = Some 75, freqs = [1, 2]\<rparr>)
          = Inl (ValueError ''operands have different Z0''))
       [Add, Sub, Mul, Div, RAdd, RSub, RMul, RDiv]"
proof -
  let ?a = "\<lparr>array = [[[0]], [[1 / 4]]], type = TYPE_S, z0 = Some 50, freqs = [1, 2]\<rparr> :: NPort"
  let ?b = "\<lparr>array = [[[1 / 2]], [[1 / 3]]], type = TYPE_S, z0 = Some 75, freqs = [1, 2]\<rparr> :: NPort"
  have t: "type ?b = type ?a" by simp
  have z: "z0 ?b \<noteq> z0 ?a" by simp
  show ?thesis
    using t z make_op_impedance_mismatch[OF t z, of linear_interp] by simp
qed

text \<open>
  Claim C9 fails on the code: \<open>add\<close> reads the attribute \<open>matrices\<close>, which no sweep has, so no
  call returns a sweep.  With a plain array as sample the call ends in that
  \<open>AttributeError\<close>; with an \<open>NPortMatrix\<close> it ends there or earlier, in the conversion.
\<close>

theorem NPort_add_raises:
  "(\<exists>e. NPort_add invert self freq matrix = Inl e)
   \<and> NPort_add invert self freq (SArray m) = Inl (AttributeError ''matrices'')
   \<and> NPort_add inv_small \<lparr>array = [[[1]], [[3]]], type = TYPE_Z, z0 = None, freqs = [1, 3]\<rparr>
        2 (SArray [[2]]) = Inl (AttributeError ''matrices'')"
proof -
  have 1: "\<exists>e. NPort_add invert self freq matrix = Inl e"
    by (cases matrix)
      (auto simp: NPort_add_def getattr_matrices_def bind_def Let_def split: sum.splits)
  have 2: "NPort_add invert s f (SArray m) = Inl (AttributeError ''matrices'')" for s f m invert
    by (simp add: NPort_add_def getattr_matrices_def Let_def)
  show ?thesis using 1 2 by blast
qed

subsection \<open>The matrix product of two sweeps\<close>

lemma mapM_np_dot:
  assumes "list_all (is_mat n n) xs" "list_all (is_mat n n) ys" "0 < n"
  shows "mapM (\<lambda>(a, b). np_dot a b) (zip xs ys) = Inr (map2 mmul xs ys)"
proof (rule mapM_all_Inr)
  fix x assume x: "x \<in> set (zip xs ys)"
  obtain u v where uv: "x = (u, v)" by (cases x)
  have "is_mat n n u" "is_mat n n v"
    using x assms(1,2) set_zip_leftD[of u v xs ys] set_zip_rightD[of u v xs ys]
    by (auto simp: uv list_all_iff)
  then show "(case x of (a, b) \<Rightarrow> np_dot a b) = Inr (case x of (a, b) \<Rightarrow> mmul a b)"
    using np_dot_Inr[of n n u n v] assms(3) by (simp add: uv)
qed

lemma list_all_map2_mmul:
  assumes "list_all (is_mat n n) xs" "list_all (is_mat n n) ys" "0 < n"
  shows "list_all (is_mat n n) (map2 mmul xs ys)"
  by (rule list_all_map2[OF assms(1,2)]) (rule is_mat_mmul[OF _ _ assms(3)])

lemma merge_freqs_exclusive:
  assumes ne: "fa \<noteq> []" "fb \<noteq> []" and ov: "max (hd fa) (hd fb) < min (last fa) (last fb)"
  shows "merge_freqs fa fb
         = Inr (filter (\<lambda>f. max (hd fa) (hd fb) \<le> f \<and> f < min (last fa) (last fb))
                  (sort (remdups (fa @ fb))))"
proof -
  let ?u = "sort (remdups (fa @ fb))"
  have lo: "max (hd fa) (hd fb) \<in> set ?u" using ne by (auto simp: max_def)
  have hi: "min (last fa) (last fb) \<in> set ?u" using ne by (auto simp: min_def)
  from grid_exclusive[OF sorted_union(1,2) lo hi ov] obtain i j where
    "list_index ?u (max (hd fa) (hd fb)) = Inr i" "list_index ?u (min (last fa) (last fb)) = Inr j"
    "slice ?u i j = filter (\<lambda>f. max (hd fa) (hd fb) \<le> f \<and> f < min (last fa) (last fb)) ?u"
    by blast
  then show ?thesis using ne by (simp add: merge_freqs_def first_item_def last_item_def Let_def)
qed

lemma merge_freqs_single_point:
  assumes ne: "fa \<noteq> []" "fb \<noteq> []" and ov: "max (hd fa) (hd fb) = min (last fa) (last fb)"
  shows "merge_freqs fa fb = Inr []"
proof -
  let ?u = "sort (remdups (fa @ fb))"
  have lo: "max (hd fa) (hd fb) \<in> set ?u" using ne by (auto simp: max_def)
  from list_index_sorted[OF sorted_union(1,2) lo] obtain i where
    "list_index ?u (max (hd fa) (hd fb)) = Inr i" by blast
  then show ?thesis
    using ne ov by (simp add: merge_freqs_def first_item_def last_item_def Let_def slice_def)
qed

lemma dot_single_point:
  assumes ne: "freqs a \<noteq> []" "freqs b \<noteq> []"
    and ov: "max (hd (freqs a)) (hd (freqs b)) = min (last (freqs a)) (last (freqs b))"
  shows "dot interp1d a (Sweep b) = Inl (IndexError ''index 0 is out of bounds'')"
  using merge_freqs_single_point[OF ne ov]
  by (simp add: dot_def NPort_at_def NPort_new_def)

text \<open>
  Where \<open>dot\<close> returns.  Two sweeps accepted by the constructor, of one port count, whose
  frequency ranges overlap in more than one point (the larger of the first frequencies is
  below the smaller of the last ones), are multiplied by \<open>dot\<close> provided the interpolation
  primitive answers inside the range of each sweep.  The frequencies of the product are
  the sorted union of both operands' frequencies from the lower bound on and below the
  upper bound; the product has the type and impedance of the first operand; and its
  sample at each of these frequencies is the matrix product of what \<open>at\<close> returns for the
  two operands at that frequency.
\<close>

theorem dot_aligned:
  assumes a: "NPort_new fa ma tya za = Inr a" and b: "NPort_new fb mb tyb zb = Inr b"
    and p: "NPort_ports b = NPort_ports a"
    and ov: "max (hd (freqs a)) (hd (freqs b)) < min (last (freqs a)) (last (freqs b))"
    and ia: "interpolates_within interp1d a" and ib: "interpolates_within interp1d b"
  shows "\<exists>r. dot interp1d a (Sweep b) = Inr r
           \<and> freqs r = sorted_list_of_set
                 {f \<in> set (freqs a) \<union> set (freqs b).
                    max (hd (freqs a)) (hd (freqs b)) \<le> f
                    \<and> f < min (last (freqs a)) (last (freqs b))}
           \<and> type r = type a \<and> z0 r = z0 a \<and> length (array r) = length (freqs r)
           \<and> (\<forall>i<length (freqs r). \<exists>x y.
                  NPort_at_single interp1d a (freqs r ! i) = Inr x
                \<and> NPort_at_single interp1d b (freqs r ! i) = Inr y
                \<and> array r ! i = mmul (array x) (array y))"
proof -
  let ?n = "NPort_ports a"
  let ?lo = "max (hd (freqs a)) (hd (freqs b))"
  let ?hi = "min (last (freqs a)) (last (freqs b))"
  let ?P = "\<lambda>f. ?lo \<le> f \<and> f < ?hi"
  let ?u = "sort (remdups (freqs a @ freqs b))"
  let ?g = "filter ?P ?u"
  note wa = NPort_new_wf[OF a] and wb = NPort_new_wf[OF b]
  have mf: "merge_freqs (freqs a) (freqs b) = Inr ?g"
    by (rule merge_freqs_exclusive[OF wa(4) wb(4) ov])
  have lo: "?lo \<in> set ?u" using wa(4) wb(4) by (auto simp: max_def)
  have "?lo \<in> set ?g" unfolding set_filter using lo ov by blast
  then have gne: "?g \<noteq> []" by (rule in_set_nonempty)
  have ga: "\<forall>q\<in>set ?g. hd (freqs a) \<le> q \<and> q \<le> last (freqs a)" by auto
  have gb: "\<forall>q\<in>set ?g. hd (freqs b) \<le> q \<and> q \<le> last (freqs b)" by auto
  from NPort_at_ok[OF wa(1,6,7) ia gne ga] obtain xs where
    xs: "NPort_at interp1d a ?g = Inr \<lparr>array = xs, type = type a, z0 = z0 a, freqs = ?g\<rparr>"
        "length xs = length ?g" "list_all (is_mat ?n ?n) xs"
        "\<forall>i<length ?g. interp1d (freqs a) (array a) (?g ! i) = Inr (xs ! i)"
    by blast
  from NPort_at_ok[OF wb(1,6,7) ib gne gb] obtain ys where
    ys: "NPort_at interp1d b ?g = Inr \<lparr>array = ys, type = type b, z0 = z0 b, freqs = ?g\<rparr>"
        "length ys = length ?g" "list_all (is_mat ?n ?n) ys"
        "\<forall>i<length ?g. interp1d (freqs b) (array b) (?g ! i) = Inr (ys ! i)"
    unfolding p by blast
  let ?r = "map2 mmul xs ys"
  have prod: "mapM (\<lambda>(a, b). np_dot a b) (zip xs ys) = Inr ?r"
    by (rule mapM_np_dot[OF xs(3) ys(3) wa(1)])
  have rl: "length ?g = length ?r" using xs(2) ys(2) by simp
  have rne: "?r \<noteq> []" using rl gne by auto
  have rall: "list_all (is_mat ?n ?n) ?r"
    by (rule list_all_map2_mmul[OF xs(3) ys(3) wa(1)])
  have new: "NPort_new ?g ?r (type a) (z0 a)
             = Inr \<lparr>array = ?r, type = type a, z0 = z0 a, freqs = ?g\<rparr>"
    by (rule NPort_new_ok[OF rl rne wa(1) rall wa(6,7)])
  have d: "dot interp1d a (Sweep b) = Inr \<lparr>array = ?r, type = type a, z0 = z0 a, freqs = ?g\<rparr>"
    using mf xs(1) ys(1) prod new by (simp add: dot_def)
  have grid: "?g = sorted_list_of_set {f \<in> set (freqs a) \<union> set (freqs b). ?P f}"
    by (rule filter_sorted_union)
  have each: "\<exists>x y. NPort_at_single interp1d a (?g ! i) = Inr x
                \<and> NPort_at_single interp1d b (?g ! i) = Inr y
                \<and> ?r ! i = mmul (array x) (array y)" if i: "i < length ?g" for i
  proof -
    have x: "NPort_at_single interp1d a (?g ! i) = Inr \<lparr>array = xs ! i, type = type a, z0 = z0 a\<rparr>"
      by (rule NPort_at_single_eq[OF wa(1,6,7)]) (use xs i in \<open>auto simp: list_all_length\<close>)
    have y: "NPort_at_single interp1d b (?g ! i) = Inr \<lparr>array = ys ! i, type = type b, z0 = z0 b\<rparr>"
      by (rule NPort_at_single_eq[OF wb(1,6,7)]) (use ys i p in \<open>auto simp: list_all_length\<close>)
    have "?r ! i = mmul (xs ! i) (ys ! i)" using i xs(2) ys(2) by simp
    then show ?thesis using x y by simp
  qed
  show ?thesis
    apply (rule exI[of _ "\<lparr>array = ?r, type = type a, z0 = z0 a, freqs = ?g\<rparr>"])
    using d grid rl each by simp
qed

theorem dot_aligned_witness:
  "NPort_new [1, 2, 3, 4] [[[1]], [[2]], [[3]], [[4]]] TYPE_S (Some 75)
     = Inr \<lparr>array = [[[1]], [[2]], [[3]], [[4]]], type = TYPE_S, z0 = Some 75, freqs = [1, 2, 3, 4]\<rparr>
   \<and> NPort_new [2, 3, 4, 5] [[[20]], [[30]], [[40]], [[50]]] TYPE_Z None
     = Inr \<lparr>array = [[[20]], [[30]], [[40]], [[50]]], type = TYPE_Z, z0 = None, freqs = [2, 3, 4, 5]\<rparr>
   \<and> (\<exists>r. dot linear_interp
            \<lparr>array = [[[1]], [[2]], [[3]], [[4]]], type = TYPE_S, z0 = Some 75, freqs = [1, 2, 3, 4]\<rparr>
            (Sweep \<lparr>array = [[[20]], [[30]], [[40]], [[50]]], type = TYPE_Z, z0 = None,
                    freqs = [2, 3, 4, 5]\<rparr>) = Inr r
          \<and> freqs r = [2, 3] \<and> type r = TYPE_S \<and> z0 r = Some 75)"
proof -
  let ?a = "\<lparr>array = [[[1]], [[2]], [[3]], [[4]]], type = TYPE_S, z0 = Some 75,
             freqs = [1, 2, 3, 4]\<rparr> :: NPort"
  let ?b = "\<lparr>array = [[[20]], [[30]], [[40]], [[50]]], type = TYPE_Z, z0 = None,
             freqs = [2, 3, 4, 5]\<rparr> :: NPort"
  have a: "NPort_new [1, 2, 3, 4] [[[1]], [[2]], [[3]], [[4]]] TYPE_S (Some 75) = Inr ?a"
    by (simp add: NPort_new_def eval_defs)
  have b: "NPort_new [2, 3, 4, 5] [[[20]], [[30]], [[40]], [[50]]] TYPE_Z None = Inr ?b"
    by (simp add: NPort_new_def eval_defs)
  have p: "NPort_ports ?b = NPort_ports ?a" by (simp add: NPort_ports_def)
  have ov: "max (hd (freqs ?a)) (hd (freqs ?b)) < min (last (freqs ?a)) (last (freqs ?b))"
    by simp
  have g: "sorted_list_of_set {f \<in> set (freqs ?a) \<union> set (freqs ?b).
              max (hd (freqs ?a)) (hd (freqs ?b)) \<le> f
              \<and> f < min (last (freqs ?a)) (last (freqs ?b))} = [2, 3]"
    unfolding filter_sorted_union[symmetric] by simp
  from dot_aligned[OF a b p ov linear_interp_within[OF a] linear_interp_within[OF b]]
  have "\<exists>r. dot linear_interp ?a (Sweep ?b) = Inr r
          \<and> freqs r = [2, 3] \<and> type r = TYPE_S \<and> z0 r = Some 75"
    unfolding g by auto
  then show ?thesis using a b by blast
qed

text \<open>
  Claim C2 fails on the code where the two ranges share a single point.  The sweeps at
  \<open>[1, 2]\<close> and at \<open>[2, 3]\<close> are accepted by the constructor and overlap at \<open>2\<close>.  \<open>merge_freqs\<close>
  slices up to \<open>index(maxf)\<close> where the operator \<open>+\<close> slices up to \<open>index(max_freq) + 1\<close>: the
  operator returns the sum at \<open>[2]\<close>, while in \<open>dot\<close> the slice is empty, \<open>at\<close> builds a sweep of no
  samples and the constructor raises \<open>IndexError\<close>.
\<close>

theorem dot_single_point_raises:
  "NPort_new [1, 2] [[[1]], [[2]]] TYPE_Z None
     = Inr \<lparr>array = [[[1]], [[2]]], type = TYPE_Z, z0 = None, freqs = [1, 2]\<rparr>
   \<and> NPort_new [2, 3] [[[20]], [[30]]] TYPE_Z None
     = Inr \<lparr>array = [[[20]], [[30]]], type = TYPE_Z, z0 = None, freqs = [2, 3]\<rparr>
   \<and> max (hd [1, 2 :: real]) (hd [2, 3]) \<le> min (last [1, 2]) (last [2, 3])
   \<and> make_op linear_interp Add
        \<lparr>array = [[[1]], [[2]]], type = TYPE_Z, z0 = None, freqs = [1, 2]\<rparr>
        (Sweep \<lparr>array = [[[20]], [[30]]], type = TYPE_Z, z0 = None, freqs = [2, 3]\<rparr>)
     = Inr \<lparr>array = [[[22]]], type = TYPE_Z, z0 = None, freqs = [2]\<rparr>
   \<and> dot linear_interp
        \<lparr>array = [[[1]], [[2]]], type = TYPE_Z, z0 = None, freqs = [1, 2]\<rparr>
        (Sweep \<lparr>array = [[[20]], [[30]]], type = TYPE_Z, z0 = None, freqs = [2, 3]\<rparr>)
     = Inl (IndexError ''index 0 is out of bounds'')"
proof -
  have 1: "NPort_new [1, 2] [[[1]], [[2]]] TYPE_Z None
     = Inr \<lparr>array = [[[1]], [[2]]], type = TYPE_Z, z0 = None, freqs = [1, 2]\<rparr>"
    by (simp add: NPort_new_def eval_defs)
  have 2: "NPort_new [2, 3] [[[20]], [[30]]] TYPE_Z None
     = Inr \<lparr>array = [[[20]], [[30]]], type = TYPE_Z, z0 = None, freqs = [2, 3]\<rparr>"
    by (simp add: NPort_new_def eval_defs)
  have 3: "max (hd [1, 2 :: real]) (hd [2, 3]) \<le> min (last [1, 2]) (last [2, 3])" by simp
  have 4: "make_op linear_interp Add
        \<lparr>array = [[[1]], [[2]]], type = TYPE_Z, z0 = None, freqs = [1, 2]\<rparr>
        (Sweep \<lparr>array = [[[20]], [[30]]], type = TYPE_Z, z0 = None, freqs = [2, 3]\<rparr>)
     = Inr \<lparr>array = [[[22]]], type = TYPE_Z, z0 = None, freqs = [2]\<rparr>"
    by (simp add: make_op_def first_item_def last_item_def slice_def NPort_at_def
        ndarray_method_def NPort_new_def eval_defs)
  have 5: "dot linear_interp
        \<lparr>array = [[[1]], [[2]]], type = TYPE_Z, z0 = None, freqs = [1, 2]\<rparr>
        (Sweep \<lparr>array = [[[20]], [[30]]], type = TYPE_Z, z0 = None, freqs = [2, 3]\<rparr>)
     = Inl (IndexError ''index 0 is out of bounds'')"
    by (rule dot_single_point) simp_all
  show ?thesis using 1 2 3 4 5 by blast
qed

end
